theory Spec2Isabelle
  imports Complex_Main "HOL-Library.Multiset"
begin

section \<open>Numbers of the JavaScript runtime\<close>

text \<open>
  A Number is an IEEE 754 double: \<open>NaN\<close>, one of the two infinities, or a finite value,
  which is a rational here. The two zeros are one value \<open>Num 0\<close>; the program only tests
  a zero for truthiness and subtracts it, where they agree.
\<close>

datatype number = NaN | Num rat | PosInfinity | NegInfinity

text \<open>The number of binary digits of a natural number.\<close>

function bitLength :: "nat \<Rightarrow> nat" where
  "bitLength n = (if n = 0 then 0 else Suc (bitLength (n div 2)))"
  by pat_completeness auto
termination
  by (relation "measure id") auto

declare bitLength.simps [simp del]

text \<open>
  The Number value for a rational \<open>x\<close>: the nearest double, the one with an even significand
  when two are equally near, and an infinity from \<open>2\<^sup>1\<^sup>0\<^sup>2\<^sup>4\<close> on. \<open>log2floor x\<close> is the
  exponent \<open>e\<close> with \<open>2\<^sup>e \<le> x < 2\<^sup>e\<^sup>+\<^sup>1\<close> of a positive \<open>x\<close>; the doubles next to \<open>x\<close> are
  the multiples of \<open>2\<^sup>e\<^sup>-\<^sup>5\<^sup>2\<close>, and those of \<open>2\<^sup>-\<^sup>1\<^sup>0\<^sup>7\<^sup>4\<close> below the normal range.
\<close>

definition log2floor :: "rat \<Rightarrow> int" where
  "log2floor x =
     (if 1 \<le> x then int (bitLength (nat \<lfloor>x\<rfloor>)) - 1
      else - int (bitLength (nat (\<lceil>1 / x\<rceil> - 1))))"

definition pow2 :: "int \<Rightarrow> rat" where
  "pow2 e = (if 0 \<le> e then 2 ^ nat e else 1 / 2 ^ nat (- e))"

definition roundHalfEven :: "rat \<Rightarrow> int" where
  "roundHalfEven x =
     (let f = \<lfloor>x\<rfloor>; d = x - of_int f
      in if d < 1 / 2 \<or> (d = 1 / 2 \<and> even f) then f else f + 1)"

definition numberValue :: "rat \<Rightarrow> number" where
  "numberValue x =
     (if x = 0 then Num 0
      else
        let a = \<bar>x\<bar>;
            e = max (log2floor a) (- 1022);
            q = pow2 (e - 52);
            m = of_int (roundHalfEven (a / q)) * q
        in if 2 ^ 1024 \<le> m then (if x < 0 then NegInfinity else PosInfinity)
           else Num (if x < 0 then - m else m))"

text \<open>
  The operators \<open>-\<close> and \<open>*\<close> on Numbers: the exact result of finite operands is rounded;
  \<open>NaN\<close> comes from a \<open>NaN\<close> operand, from the difference of equal infinities and from the
  product of zero and an infinity.
\<close>

definition minusNumber :: "number \<Rightarrow> number \<Rightarrow> number" where
  "minusNumber a b =
     (case (a, b) of
        (Num x, Num y) \<Rightarrow> numberValue (x - y)
      | (Num x, PosInfinity) \<Rightarrow> NegInfinity
      | (Num x, NegInfinity) \<Rightarrow> PosInfinity
      | (PosInfinity, Num y) \<Rightarrow> PosInfinity
      | (PosInfinity, NegInfinity) \<Rightarrow> PosInfinity
      | (NegInfinity, Num y) \<Rightarrow> NegInfinity
      | (NegInfinity, PosInfinity) \<Rightarrow> NegInfinity
      | _ \<Rightarrow> NaN)"

definition signedInfinity :: "bool \<Rightarrow> number" where
  "signedInfinity negative = (if negative then NegInfinity else PosInfinity)"

definition timesNumber :: "number \<Rightarrow> number \<Rightarrow> number" where
  "timesNumber a b =
     (case (a, b) of
        (Num x, Num y) \<Rightarrow> numberValue (x * y)
      | (Num x, PosInfinity) \<Rightarrow> if x = 0 then NaN else signedInfinity (x < 0)
      | (Num x, NegInfinity) \<Rightarrow> if x = 0 then NaN else signedInfinity (0 < x)
      | (PosInfinity, Num y) \<Rightarrow> if y = 0 then NaN else signedInfinity (y < 0)
      | (NegInfinity, Num y) \<Rightarrow> if y = 0 then NaN else signedInfinity (0 < y)
      | (PosInfinity, PosInfinity) \<Rightarrow> PosInfinity
      | (PosInfinity, NegInfinity) \<Rightarrow> NegInfinity
      | (NegInfinity, PosInfinity) \<Rightarrow> NegInfinity
      | (NegInfinity, NegInfinity) \<Rightarrow> PosInfinity
      | _ \<Rightarrow> NaN)"

text \<open>Truthiness of a Number: \<open>NaN\<close> and zero are falsy.\<close>

definition truthy :: "number \<Rightarrow> bool" where
  "truthy v = (v \<noteq> NaN \<and> v \<noteq> Num 0)"

section \<open>Common data model (the source abstraction types)\<close>

text \<open>
  JavaScript exceptions are values: \<open>Error msg\<close> is \<open>new Error(msg)\<close>, \<open>RangeError msg\<close> the
  built-in range error. A promise that rejects, or a function that throws, returns \<open>Inl\<close>.
\<close>

datatype error = Error string | RangeError string

text \<open>
  \<open>SourceChapter\<close>. The field \<open>id\<close> is written \<open>id_ch\<close> and \<open>chapter\<close> is written
  \<open>chapter_no\<close>, since both names are taken in Isabelle. \<open>null\<close> is \<open>None\<close>.
\<close>

record SourceChapter =
  id_ch :: string
  chapter_no :: "string option"
  volume :: "string option"
  title :: "string option"
  language :: string
  pages :: int
  publishedAt :: string
  externalUrl :: "string option"

text \<open>The element type of \<open>MangaDexChapterResponse.chapters\<close>.\<close>

record api_chapter =
  api_id :: string
  api_chapter :: "string option"
  api_volume :: "string option"
  api_title :: "string option"
  api_language :: string
  api_pages :: int
  api_publishedAt :: string
  api_externalUrl :: "string option"
  api_scanlationGroup :: "string option"

section \<open>The network\<close>

text \<open>
  A \<open>Response\<close> of the Fetch API, as far as the code reads it: the flag \<open>ok\<close>, the number
  \<open>status\<close>, and the decoded body. \<open>fetch\<close> is a transition of the outside world \<open>'w\<close>:
  given the URL it answers with a response, or rejects, and moves the world on. Nothing is
  assumed about it, so two requests for the same URL may be answered differently.
\<close>

record 'b response =
  ok :: bool
  status :: nat
  body :: 'b

type_synonym ('w, 'b) fetch = "'w \<Rightarrow> string \<Rightarrow> (error + 'b response) \<times> 'w"

text \<open>
  What a call does besides returning: it moves the world, issues requests (logged in order
  with their answers) and writes to the console.
\<close>

record ('w, 'b) io =
  world :: 'w
  requests :: "(string \<times> (error + 'b response)) list"
  console :: "string list"

definition fresh :: "'w \<Rightarrow> ('w, 'b) io" where
  "fresh w = \<lparr>world = w, requests = [], console = []\<rparr>"

definition doFetch :: "('w, 'b) fetch \<Rightarrow> string \<Rightarrow> ('w, 'b) io \<Rightarrow> (error + 'b response) \<times> ('w, 'b) io" where
  "doFetch fetch url s =
     (case fetch (world s) url of
        (out, w') \<Rightarrow> (out, s\<lparr>world := w', requests := requests s @ [(url, out)]\<rparr>))"

definition warn :: "string \<Rightarrow> ('w, 'b) io \<Rightarrow> ('w, 'b) io" where
  "warn msg s = s\<lparr>console := console s @ [msg]\<rparr>"

text \<open>The decimal rendering of a non-negative integer, as a template literal produces it.\<close>

definition digitChar :: "nat \<Rightarrow> char" where
  "digitChar d = ''0123456789'' ! d"

function showNat :: "nat \<Rightarrow> string" where
  "showNat n = (if n < 10 then [digitChar n] else showNat (n div 10) @ [digitChar (n mod 10)])"
  by pat_completeness auto
termination
  by (relation "measure id") auto

declare showNat.simps [simp del]

text \<open>Reading a decimal numeral back: the value of a digit, and of a string of digits.\<close>

definition digitVal :: "char \<Rightarrow> nat" where
  "digitVal c = (of_char c) - 48"

definition readNat :: "string \<Rightarrow> nat" where
  "readNat cs = foldl (\<lambda>a c. 10 * a + digitVal c) 0 cs"

section \<open>MangaDex adapter\<close>

definition toSourceChapter :: "api_chapter \<Rightarrow> SourceChapter" where
  "toSourceChapter ch =
     \<lparr>id_ch = api_id ch, chapter_no = api_chapter ch, volume = api_volume ch,
      title = api_title ch, language = api_language ch, pages = api_pages ch,
      publishedAt = api_publishedAt ch, externalUrl = api_externalUrl ch\<rparr>"

definition batchSize :: nat where
  "batchSize = 500"

definition chaptersUrl :: "string \<Rightarrow> nat \<Rightarrow> string" where
  "chaptersUrl mangaId offset =
     ''/api/reader/'' @ mangaId @ ''/chapters?limit='' @ showNat batchSize @ ''&offset='' @ showNat offset"

definition safetyWarning :: "nat \<Rightarrow> string" where
  "safetyWarning offset = ''[MangaDex] Safety limit reached at offset '' @ showNat offset"

definition firstPageError :: "nat \<Rightarrow> error" where
  "firstPageError st = Error (''Failed to fetch MangaDex chapters: '' @ showNat st)"

text \<open>
  The \<open>while (true)\<close> loop of \<open>getMangaDexChapters\<close>, one call per iteration, with the
  loop variables \<open>offset\<close> and \<open>allChapters\<close> as arguments.
\<close>

function paginate ::
  "('w, api_chapter list) fetch \<Rightarrow> string \<Rightarrow> nat \<Rightarrow> SourceChapter list \<Rightarrow> ('w, api_chapter list) io
     \<Rightarrow> (error + SourceChapter list) \<times> ('w, api_chapter list) io" where
  "paginate fetch mangaId offset allChapters s =
     (case doFetch fetch (chaptersUrl mangaId offset) s of
        (Inl e, s1) \<Rightarrow> (Inl e, s1)
      | (Inr resp, s1) \<Rightarrow>
          if \<not> ok resp then
            (if offset = 0 then (Inl (firstPageError (status resp)), s1)
             else (Inr allChapters, s1))
          else
            let allChapters' = allChapters @ map toSourceChapter (body resp) in
            if length (body resp) < batchSize then (Inr allChapters', s1)
            else if offset + batchSize > 10000
              then (Inr allChapters', warn (safetyWarning (offset + batchSize)) s1)
              else paginate fetch mangaId (offset + batchSize) allChapters' s1)"
  by pat_completeness auto
termination
  by (relation "measure (\<lambda>(fetch, mangaId, offset, allChapters, s). 10001 - offset)")
     (auto simp: batchSize_def)

declare paginate.simps [simp del]

text \<open>
  \<open>Array.prototype.slice(start, end)\<close> on integer arguments: a negative index counts from
  the end, and both are clamped to the array.
\<close>

definition relIndex :: "int \<Rightarrow> nat \<Rightarrow> nat" where
  "relIndex i len = (if i < 0 then nat (max (int len + i) 0) else min (nat i) len)"

definition slice :: "int \<Rightarrow> int \<Rightarrow> 'a list \<Rightarrow> 'a list" where
  "slice b e xs =
     (let k = relIndex b (length xs); final = relIndex e (length xs)
      in take (final - k) (drop k xs))"

text \<open>
  The options object \<open>{ limit?, language? }\<close>; an absent option is \<open>None\<close>. \<open>limit\<close> is an
  integer here (a fractional, infinite or NaN limit is outside the model).
\<close>

record options =
  limit :: "int option"
  language_opt :: "string option"

definition noOptions :: options where
  "noOptions = \<lparr>limit = None, language_opt = None\<rparr>"

text \<open>
  The client-side filters at the end of \<open>getMangaDexChapters\<close>. \<open>if (language)\<close> is false for
  \<open>undefined\<close> and for the empty string; \<open>if (limit && ...)\<close> is false for \<open>undefined\<close> and
  for \<open>0\<close>.
\<close>

definition filterLanguage :: "string option \<Rightarrow> SourceChapter list \<Rightarrow> SourceChapter list" where
  "filterLanguage lang result =
     (case lang of
        None \<Rightarrow> result
      | Some l \<Rightarrow> if l \<noteq> [] then filter (\<lambda>ch. language ch = l) result else result)"

definition applyLimit :: "int option \<Rightarrow> SourceChapter list \<Rightarrow> SourceChapter list" where
  "applyLimit lmt result =
     (case lmt of
        None \<Rightarrow> result
      | Some n \<Rightarrow> if n \<noteq> 0 \<and> int (length result) > n then slice 0 n result else result)"

definition clientFilters :: "options \<Rightarrow> SourceChapter list \<Rightarrow> SourceChapter list" where
  "clientFilters opts allChapters = applyLimit (limit opts) (filterLanguage (language_opt opts) allChapters)"

definition getMangaDexChapters ::
  "('w, api_chapter list) fetch \<Rightarrow> string \<Rightarrow> options \<Rightarrow> ('w, api_chapter list) io
     \<Rightarrow> (error + SourceChapter list) \<times> ('w, api_chapter list) io" where
  "getMangaDexChapters fetch mangaId opts s =
     (case paginate fetch mangaId 0 [] s of
        (Inl e, s') \<Rightarrow> (Inl e, s')
      | (Inr allChapters, s') \<Rightarrow> (Inr (clientFilters opts allChapters), s'))"

text \<open>Reading the request log: the chapters of a page that arrived, and a page that is full.\<close>

definition pageChapters :: "error + api_chapter list response \<Rightarrow> SourceChapter list" where
  "pageChapters out =
     (case out of Inl e \<Rightarrow> [] | Inr resp \<Rightarrow> if ok resp then map toSourceChapter (body resp) else [])"

definition collected :: "(string \<times> (error + api_chapter list response)) list \<Rightarrow> SourceChapter list" where
  "collected es = concat (map (pageChapters \<circ> snd) es)"

definition fullPage :: "error + api_chapter list response \<Rightarrow> bool" where
  "fullPage out = (case out of Inl e \<Rightarrow> False | Inr resp \<Rightarrow> ok resp \<and> batchSize \<le> length (body resp))"

definition httpFailure :: "error + 'b response \<Rightarrow> bool" where
  "httpFailure out = (case out of Inl e \<Rightarrow> False | Inr resp \<Rightarrow> \<not> ok resp)"

text \<open>Fixtures for concrete runs: a server that answers from a script, and sample data.\<close>

definition scripted :: "((error + 'b response) list, 'b) fetch" where
  "scripted w url = (case w of [] \<Rightarrow> (Inl (Error ''fetch failed''), []) | out # rest \<Rightarrow> (out, rest))"

definition okPage :: "'b \<Rightarrow> error + 'b response" where
  "okPage b = Inr \<lparr>ok = True, status = 200, body = b\<rparr>"

definition httpError :: "nat \<Rightarrow> 'b \<Rightarrow> error + 'b response" where
  "httpError st b = Inr \<lparr>ok = False, status = st, body = b\<rparr>"

definition sampleChapter :: "string \<Rightarrow> string \<Rightarrow> api_chapter" where
  "sampleChapter i l =
     \<lparr>api_id = i, api_chapter = Some ''1'', api_volume = None, api_title = None, api_language = l,
      api_pages = 20, api_publishedAt = ''2024-01-01T00:00:00.000Z'', api_externalUrl = None,
      api_scanlationGroup = None\<rparr>"

definition endless :: "'b \<Rightarrow> (unit, 'b) fetch" where
  "endless b w url = (okPage b, w)"

section \<open>Chapter pages from MangaDex\<close>

text \<open>
  \<open>SourcePage\<close> and \<open>SourceChapterPages\<close>. An optional field that is absent is \<open>None\<close>;
  the field \<open>pages\<close> of \<open>SourceChapterPages\<close> is written \<open>pages_list\<close>.
\<close>

record SourcePage =
  index :: nat
  imageUrl :: string
  width :: "number option"
  height :: "number option"

record SourceChapterPages =
  chapterId :: string
  pages_list :: "SourcePage list"
  referer :: "string option"

text \<open>\<open>MangaDexImagesResponse\<close>, without the \<open>metadata\<close> object, which the adapter does not read.\<close>

record images_response =
  img_baseUrl :: string
  img_hash :: string
  images :: "string list"
  dataSaverImages :: "string list"
  img_chapterId :: string
  img_mangaId :: string

definition showBool :: "bool \<Rightarrow> string" where
  "showBool b = (if b then ''true'' else ''false'')"

definition pagesUrl :: "string \<Rightarrow> string \<Rightarrow> bool \<Rightarrow> string" where
  "pagesUrl mangaId chapId dataSaver =
     ''/api/reader/'' @ mangaId @ ''/'' @ chapId @ ''?dataSaver='' @ showBool dataSaver"

definition pagesError :: "nat \<Rightarrow> error" where
  "pagesError st = Error (''Failed to fetch MangaDex chapter pages: '' @ showNat st)"

definition plainPage :: "nat \<times> string \<Rightarrow> SourcePage" where
  "plainPage p = \<lparr>index = fst p, imageUrl = snd p, width = None, height = None\<rparr>"

definition getMangaDexChapterPages ::
  "('w, images_response) fetch \<Rightarrow> string \<Rightarrow> string \<Rightarrow> bool \<Rightarrow> ('w, images_response) io
     \<Rightarrow> (error + SourceChapterPages) \<times> ('w, images_response) io" where
  "getMangaDexChapterPages fetch mangaId chapId dataSaver s =
     (case doFetch fetch (pagesUrl mangaId chapId dataSaver) s of
        (Inl e, s1) \<Rightarrow> (Inl e, s1)
      | (Inr resp, s1) \<Rightarrow>
          if \<not> ok resp then (Inl (pagesError (status resp)), s1)
          else (Inr \<lparr>chapterId = img_chapterId (body resp),
                     pages_list = map plainPage (enumerate 0 (images (body resp))),
                     referer = None\<rparr>, s1))"

text \<open>
  \<open>String.prototype.split\<close> with a separator of one character, and reading an array position
  that may be missing (\<open>undefined\<close> is \<open>None\<close>).
\<close>

fun split :: "char \<Rightarrow> string \<Rightarrow> string list" where
  "split sep [] = [[]]"
| "split sep (c # cs) =
     (if c = sep then [] # split sep cs
      else (case split sep cs of [] \<Rightarrow> [[c]] | x # xs \<Rightarrow> (c # x) # xs))"

definition nthOpt :: "'a list \<Rightarrow> nat \<Rightarrow> 'a option" where
  "nthOpt xs i = (if i < length xs then Some (xs ! i) else None)"

definition formatError :: error where
  "formatError = Error ''MangaDex chapter pages require mangaId:chapterId format''"

text \<open>
  \<open>mangadexSource.getChapterPages\<close>. The array pattern \<open>[mangaId, actualChapterId]\<close> reads
  positions 0 and 1 of the array; \<open>!mangaId\<close> holds for \<open>undefined\<close> and for the empty
  string; an \<open>undefined\<close> in a template literal prints as \<open>undefined\<close>.
\<close>

definition mangadexSource_getChapterPages ::
  "('w, images_response) fetch \<Rightarrow> string \<Rightarrow> ('w, images_response) io
     \<Rightarrow> (error + SourceChapterPages) \<times> ('w, images_response) io" where
  "mangadexSource_getChapterPages fetch chapId s =
     (let parts = (if CHR '':'' \<in> set chapId then split CHR '':'' chapId else ['''', chapId]);
          mangaId = nthOpt parts 0;
          actualChapterId = nthOpt parts 1
      in if mangaId = None \<or> mangaId = Some '''' then (Inl formatError, s)
         else getMangaDexChapterPages fetch (the mangaId)
                (case actualChapterId of None \<Rightarrow> ''undefined'' | Some c \<Rightarrow> c) True s)"

definition sampleImages :: images_response where
  "sampleImages =
     \<lparr>img_baseUrl = ''https://uploads.mangadex.org'', img_hash = ''h'',
      images = [''https://uploads.mangadex.org/data/h/1.png'', ''https://uploads.mangadex.org/data/h/2.png''],
      dataSaverImages = [], img_chapterId = ''b'', img_mangaId = ''a''\<rparr>"

section \<open>Strings and regular expressions of the JavaScript runtime\<close>

text \<open>
  Strings are lists of 8-bit characters, so the model covers text in the Latin-1 range. In
  this range the white space of \<open>String.prototype.trim\<close> and of the class \<open>\s\<close> is the
  characters 9 to 13, the space and the no-break space.
\<close>

definition isSpace :: "char \<Rightarrow> bool" where
  "isSpace c = ((of_char c :: nat) \<in> {9, 10, 11, 12, 13, 32, 160})"

definition isDigit :: "char \<Rightarrow> bool" where
  "isDigit c = (c \<in> set ''0123456789'')"

definition trimStart :: "string \<Rightarrow> string" where
  "trimStart s = dropWhile isSpace s"

definition trim :: "string \<Rightarrow> string" where
  "trim s = rev (dropWhile isSpace (rev (dropWhile isSpace s)))"

text \<open>Lower case of an ASCII letter; every other character is left alone.\<close>

definition lowerChar :: "char \<Rightarrow> char" where
  "lowerChar c =
     (case map_of (zip ''ABCDEFGHIJKLMNOPQRSTUVWXYZ'' ''abcdefghijklmnopqrstuvwxyz'') c of
        None \<Rightarrow> c
      | Some l \<Rightarrow> l)"

definition toLowerCase :: "string \<Rightarrow> string" where
  "toLowerCase s = map lowerChar s"

text \<open>\<open>s.includes(sub)\<close>, written \<open>includesStr\<close>, and \<open>s.startsWith(sub)\<close>.\<close>

definition startsWith :: "string \<Rightarrow> string \<Rightarrow> bool" where
  "startsWith s sub = (take (length sub) s = sub)"

primrec includesStr :: "string \<Rightarrow> string \<Rightarrow> bool" where
  "includesStr [] sub = (sub = [])"
| "includesStr (c # cs) sub = (startsWith (c # cs) sub \<or> includesStr cs sub)"

text \<open>
  The regular expressions of the source use concatenation, alternatives, the optional
  \<open>?\<close>, the greedy \<open>*\<close> and \<open>+\<close> on character classes, and capturing groups. A matcher
  state is the rest of the input and the groups captured so far. \<open>rxm r st\<close> lists the states
  after every way of matching \<open>r\<close>, in the order in which a backtracking matcher tries them:
  the left alternative first, a longer repetition first, the optional part present first.
\<close>

datatype rx =
    Emp
  | Chr "char \<Rightarrow> bool"
  | Seq rx rx
  | Alt rx rx
  | Opt rx
  | Star "char \<Rightarrow> bool"
  | Grp nat rx

type_synonym rx_state = "string \<times> (nat \<times> string) list"

primrec starSplits :: "(char \<Rightarrow> bool) \<Rightarrow> string \<Rightarrow> string list" where
  "starSplits p [] = [[]]"
| "starSplits p (c # cs) = (if p c then starSplits p cs @ [c # cs] else [c # cs])"

fun rxm :: "rx \<Rightarrow> rx_state \<Rightarrow> rx_state list" where
  "rxm Emp st = [st]"
| "rxm (Chr p) (s, g) = (case s of [] \<Rightarrow> [] | c # cs \<Rightarrow> if p c then [(cs, g)] else [])"
| "rxm (Seq a b) st = concat (map (rxm b) (rxm a st))"
| "rxm (Alt a b) st = rxm a st @ rxm b st"
| "rxm (Opt a) st = rxm a st @ [st]"
| "rxm (Star p) (s, g) = map (\<lambda>r. (r, g)) (starSplits p s)"
| "rxm (Grp n a) (s, g) =
     map (\<lambda>(r, g'). (r, (n, take (length s - length r) s) # g')) (rxm a (s, g))"

text \<open>
  A match is the matched text with the groups. \<open>matchHere\<close> matches at the start of the
  string (a pattern that begins with \<open>^\<close>), \<open>search\<close> at the leftmost position where a match
  exists (\<open>String.prototype.match\<close> without the flag \<open>g\<close>). \<open>matchAll\<close> is
  \<open>String.prototype.match\<close> with the flag \<open>g\<close>: the matched texts from left to right, the
  search going on behind each match; the number counts the characters still to be skipped.
\<close>

definition matchHere :: "rx \<Rightarrow> string \<Rightarrow> (string \<times> (nat \<times> string) list) option" where
  "matchHere r s =
     (case rxm r (s, []) of
        [] \<Rightarrow> None
      | (rest, g) # _ \<Rightarrow> Some (take (length s - length rest) s, g))"

primrec search :: "rx \<Rightarrow> string \<Rightarrow> (string \<times> (nat \<times> string) list) option" where
  "search r [] = matchHere r []"
| "search r (c # cs) =
     (case matchHere r (c # cs) of Some m \<Rightarrow> Some m | None \<Rightarrow> search r cs)"

primrec matchAllFrom :: "rx \<Rightarrow> nat \<Rightarrow> string \<Rightarrow> string list" where
  "matchAllFrom r k [] = []"
| "matchAllFrom r k (c # cs) =
     (case k of
        Suc k' \<Rightarrow> matchAllFrom r k' cs
      | 0 \<Rightarrow>
          (case matchHere r (c # cs) of
             None \<Rightarrow> matchAllFrom r 0 cs
           | Some (m, g) \<Rightarrow> m # matchAllFrom r (length m - 1) cs))"

definition matchAll :: "rx \<Rightarrow> string \<Rightarrow> string list" where
  "matchAll r s = matchAllFrom r 0 s"

definition group :: "nat \<Rightarrow> (string \<times> (nat \<times> string) list) \<Rightarrow> string option" where
  "group n m = map_of (snd m) n"

text \<open>Building blocks: a literal, a literal under the flag \<open>i\<close>, and \<open>+\<close> on a class.\<close>

definition ci :: "char \<Rightarrow> rx" where
  "ci c = Chr (\<lambda>x. lowerChar x = lowerChar c)"

definition lit :: "string \<Rightarrow> rx" where
  "lit s = foldr (\<lambda>c r. Seq (Chr (\<lambda>x. x = c)) r) s Emp"

definition lit_ci :: "string \<Rightarrow> rx" where
  "lit_ci s = foldr (\<lambda>c r. Seq (ci c) r) s Emp"

definition oneOrMore :: "(char \<Rightarrow> bool) \<Rightarrow> rx" where
  "oneOrMore p = Seq (Chr p) (Star p)"

text \<open>
  \<open>parseInt(s, 10)\<close>: leading white space, an optional sign, then the longest run of digits;
  \<open>NaN\<close> when there is no digit. The result is the Number value for the integer that the
  digits write: it differs from this integer above \<open>2\<^sup>5\<^sup>3\<close> and is an infinity beyond the
  range of the doubles. (The standard lets an implementation read the digits after the
  twentieth as zeros; the model rounds the integer as it is written.)
\<close>

definition parseInt :: "string \<Rightarrow> number" where
  "parseInt s =
     (let t = trimStart s;
          neg = (case t of [] \<Rightarrow> False | c # _ \<Rightarrow> c = CHR ''-'');
          u = (case t of [] \<Rightarrow> [] | c # cs \<Rightarrow> if c = CHR ''-'' \<or> c = CHR ''+'' then cs else t);
          ds = takeWhile isDigit u
      in if ds = [] then NaN
         else numberValue (of_int (if neg then - int (readNat ds) else int (readNat ds))))"

text \<open>
  \<open>parseFloat(s)\<close> on decimal notation: leading white space, an optional sign, digits and an
  optional fraction, of which one must have a digit; \<open>NaN\<close> (\<open>None\<close>) otherwise. The value is
  the decimal number rounded to a double by \<open>rnd\<close>, a function of the host that the model
  leaves open. An exponent and the result \<open>Infinity\<close> are not modelled: the scraper only
  passes strings that \<open>parseChapterNumber\<close> captured, digits with an optional fraction, and
  such a string is read as \<open>Infinity\<close> only if it has more than 308 digits before the point.
\<close>

definition parseFloat :: "(rat \<Rightarrow> rat) \<Rightarrow> string \<Rightarrow> rat option" where
  "parseFloat rnd s =
     (let t = trimStart s;
          neg = (case t of [] \<Rightarrow> False | c # _ \<Rightarrow> c = CHR ''-'');
          u = (case t of [] \<Rightarrow> [] | c # cs \<Rightarrow> if c = CHR ''-'' \<or> c = CHR ''+'' then cs else t);
          ds = takeWhile isDigit u;
          r = dropWhile isDigit u;
          fs = (case r of [] \<Rightarrow> [] | c # cs \<Rightarrow> if c = CHR ''.'' then takeWhile isDigit cs else [])
      in if ds = [] \<and> fs = [] then None
         else let v = of_nat (readNat ds) + of_nat (readNat fs) / of_nat (10 ^ length fs)
              in Some (rnd (if neg then - v else v)))"

section \<open>Dates of the JavaScript runtime\<close>

text \<open>
  A time value is a number of milliseconds since the epoch; a \<open>Date\<close> object holds a time
  value or \<open>NaN\<close> (\<open>None\<close>, an invalid date). The functions below are those of the ECMAScript
  specification (section "Date Objects") on integers. Time values are at most \<open>8.64e15\<close> in
  absolute value, where doubles are exact.
\<close>

definition msPerSecond :: int where "msPerSecond = 1000"
definition msPerMinute :: int where "msPerMinute = 60000"
definition msPerHour :: int where "msPerHour = 3600000"
definition msPerDay :: int where "msPerDay = 86400000"

definition Day :: "int \<Rightarrow> int" where "Day t = t div msPerDay"
definition TimeWithinDay :: "int \<Rightarrow> int" where "TimeWithinDay t = t mod msPerDay"
definition HourFromTime :: "int \<Rightarrow> int" where "HourFromTime t = (t div msPerHour) mod 24"
definition MinFromTime :: "int \<Rightarrow> int" where "MinFromTime t = (t div msPerMinute) mod 60"
definition SecFromTime :: "int \<Rightarrow> int" where "SecFromTime t = (t div msPerSecond) mod 60"
definition msFromTime :: "int \<Rightarrow> int" where "msFromTime t = t mod msPerSecond"

text \<open>
  The proleptic Gregorian calendar: the day number of the first day of a month (months count
  from 0, as in JavaScript, and may lie outside 0 to 11), and the year, month and day of
  the month of a day number.
\<close>

definition dayOfMonthStart :: "int \<Rightarrow> int \<Rightarrow> int" where
  "dayOfMonthStart year month =
     (let ym = year + month div 12;
          mn = month mod 12;
          y = (if mn < 2 then ym - 1 else ym);
          era = y div 400;
          yoe = y - era * 400;
          mp = (mn + 10) mod 12;
          doy = (153 * mp + 2) div 5;
          doe = yoe * 365 + yoe div 4 - yoe div 100 + doy
      in era * 146097 + doe - 719468)"

definition civilFromDay :: "int \<Rightarrow> int \<times> int \<times> int" where
  "civilFromDay z =
     (let z1 = z + 719468;
          era = z1 div 146097;
          doe = z1 - era * 146097;
          yoe = (doe - doe div 1460 + doe div 36524 - doe div 146096) div 365;
          doy = doe - (365 * yoe + yoe div 4 - yoe div 100);
          mp = (5 * doy + 2) div 153;
          d = doy - (153 * mp + 2) div 5 + 1;
          mn = (mp + 2) mod 12;
          y = yoe + era * 400 + (if mn < 2 then 1 else 0)
      in (y, mn, d))"

definition YearFromTime :: "int \<Rightarrow> int" where
  "YearFromTime t = fst (civilFromDay (Day t))"

definition MonthFromTime :: "int \<Rightarrow> int" where
  "MonthFromTime t = fst (snd (civilFromDay (Day t)))"

definition DateFromTime :: "int \<Rightarrow> int" where
  "DateFromTime t = snd (snd (civilFromDay (Day t)))"

definition MakeTime :: "int \<Rightarrow> int \<Rightarrow> int \<Rightarrow> int \<Rightarrow> int" where
  "MakeTime hour minute sec ms = hour * msPerHour + minute * msPerMinute + sec * msPerSecond + ms"

definition MakeDay :: "int \<Rightarrow> int \<Rightarrow> int \<Rightarrow> int" where
  "MakeDay year month date = dayOfMonthStart year month + date - 1"

definition MakeDate :: "int \<Rightarrow> int \<Rightarrow> int" where
  "MakeDate day time = day * msPerDay + time"

definition TimeClip :: "int \<Rightarrow> int option" where
  "TimeClip t = (if \<bar>t\<bar> > 8640000000000000 then None else Some t)"

text \<open>
  What the program cannot know about its host: how the native parser reads a string that
  is not in the ISO format (\<open>new Date(string)\<close> is implementation-defined there; \<open>None\<close> is
  an invalid date), the offset of local time from UTC, in milliseconds, at a time value
  (the flag says whether the time value is UTC or local), and the rounding of a decimal
  number to a double.
\<close>

record js_env =
  dateParse :: "string \<Rightarrow> int option"
  localTZA :: "int \<Rightarrow> bool \<Rightarrow> int"
  toDouble :: "rat \<Rightarrow> rat"

definition LocalTime :: "js_env \<Rightarrow> int \<Rightarrow> int" where
  "LocalTime env t = t + localTZA env t True"

definition UTC :: "js_env \<Rightarrow> int \<Rightarrow> int" where
  "UTC env t = t - localTZA env t False"

text \<open>
  The getters and setters that \<open>parseDate\<close> calls, on a valid date with time value \<open>t\<close>; a
  setter returns the new value of the date. The argument of a setter is an integer here.
\<close>

definition getMinutes :: "js_env \<Rightarrow> int \<Rightarrow> int" where
  "getMinutes env t = MinFromTime (LocalTime env t)"

definition getHours :: "js_env \<Rightarrow> int \<Rightarrow> int" where
  "getHours env t = HourFromTime (LocalTime env t)"

definition getDate :: "js_env \<Rightarrow> int \<Rightarrow> int" where
  "getDate env t = DateFromTime (LocalTime env t)"

definition getMonth :: "js_env \<Rightarrow> int \<Rightarrow> int" where
  "getMonth env t = MonthFromTime (LocalTime env t)"

definition setMinutes :: "js_env \<Rightarrow> int \<Rightarrow> int \<Rightarrow> int option" where
  "setMinutes env t0 m =
     (let t = LocalTime env t0;
          date = MakeDate (Day t) (MakeTime (HourFromTime t) m (SecFromTime t) (msFromTime t))
      in TimeClip (UTC env date))"

definition setHours :: "js_env \<Rightarrow> int \<Rightarrow> int \<Rightarrow> int option" where
  "setHours env t0 h =
     (let t = LocalTime env t0;
          date = MakeDate (Day t) (MakeTime h (MinFromTime t) (SecFromTime t) (msFromTime t))
      in TimeClip (UTC env date))"

definition setDate :: "js_env \<Rightarrow> int \<Rightarrow> int \<Rightarrow> int option" where
  "setDate env t0 dt =
     (let t = LocalTime env t0;
          newDate = MakeDate (MakeDay (YearFromTime t) (MonthFromTime t) dt) (TimeWithinDay t)
      in TimeClip (UTC env newDate))"

definition setMonth :: "js_env \<Rightarrow> int \<Rightarrow> int \<Rightarrow> int option" where
  "setMonth env t0 m =
     (let t = LocalTime env t0;
          newDate = MakeDate (MakeDay (YearFromTime t) m (DateFromTime t)) (TimeWithinDay t)
      in TimeClip (UTC env newDate))"

text \<open>
  A setter called with a Number: \<open>MakeTime\<close> and \<open>MakeDay\<close> give \<open>NaN\<close>, an invalid date,
  for an argument that is not finite, and take the integer part of a finite one.
\<close>

definition callSetter :: "(int \<Rightarrow> int option) \<Rightarrow> number \<Rightarrow> int option" where
  "callSetter setter v =
     (case v of
        Num r \<Rightarrow> setter (if r < 0 then \<lceil>r\<rceil> else \<lfloor>r\<rfloor>)
      | _ \<Rightarrow> None)"

text \<open>
  \<open>Date.prototype.toISOString\<close>: a \<open>RangeError\<close> on an invalid date, else the UTC fields as
  \<open>YYYY-MM-DDTHH:mm:ss.sssZ\<close>, with a sign and six digits for a year outside 0 to 9999.
\<close>

definition pad :: "nat \<Rightarrow> int \<Rightarrow> string" where
  "pad n k = replicate (n - length (showNat (nat k))) CHR ''0'' @ showNat (nat k)"

definition isoYear :: "int \<Rightarrow> string" where
  "isoYear y =
     (if 0 \<le> y \<and> y \<le> 9999 then pad 4 y
      else (if y < 0 then ''-'' else ''+'') @ pad 6 \<bar>y\<bar>)"

definition isoString :: "int \<Rightarrow> string" where
  "isoString t =
     isoYear (YearFromTime t) @ ''-'' @ pad 2 (MonthFromTime t + 1) @ ''-'' @ pad 2 (DateFromTime t)
       @ ''T'' @ pad 2 (HourFromTime t) @ '':'' @ pad 2 (MinFromTime t) @ '':'' @ pad 2 (SecFromTime t)
       @ ''.'' @ pad 3 (msFromTime t) @ ''Z''"

definition toISOString :: "int option \<Rightarrow> error + string" where
  "toISOString d = (case d of None \<Rightarrow> Inl (RangeError ''Invalid time value'') | Some t \<Rightarrow> Inr (isoString t))"

text \<open>
  A host for concrete runs: the UTC zone, a native parser that reads no string at all, and
  numbers that need no rounding.
\<close>

definition utcHost :: js_env where
  "utcHost = \<lparr>dateParse = (\<lambda>s. None), localTZA = (\<lambda>t u. 0), toDouble = (\<lambda>x. x)\<rparr>"

section \<open>Batoto scraper (\<open>src/lib/sources/batoto.ts\<close>)\<close>

definition BATOTO_BASE_URL :: string where
  "BATOTO_BASE_URL = ''https://mto.to''"

text \<open>The patterns \<open>/\/chapter\/([^/?#]+)/\<close> and \<open>/\/series\/([^/?#]+)/\<close>.\<close>

definition chapterIdRx :: rx where
  "chapterIdRx = Seq (lit ''/chapter/'') (Grp 1 (oneOrMore (\<lambda>c. c \<notin> set ''/?#'')))"

definition seriesIdRx :: rx where
  "seriesIdRx = Seq (lit ''/series/'') (Grp 1 (oneOrMore (\<lambda>c. c \<notin> set ''/?#'')))"

definition extractBatotoChapterId :: "string \<Rightarrow> string option" where
  "extractBatotoChapterId url = (case search chapterIdRx url of None \<Rightarrow> None | Some m \<Rightarrow> group 1 m)"

definition extractBatotoSeriesId :: "string \<Rightarrow> string option" where
  "extractBatotoSeriesId url = (case search seriesIdRx url of None \<Rightarrow> None | Some m \<Rightarrow> group 1 m)"

text \<open>
  The patterns of \<open>parseChapterNumber\<close>:
  \<open>/(?:chapter|ch\.?|episode|ep\.?)\s*(\d+(?:\.\d+)?)/i\<close> and \<open>/^(\d+(?:\.\d+)?)/\<close>.
\<close>

definition dot :: rx where
  "dot = Chr (\<lambda>x. x = CHR ''.'')"

definition numberRx :: rx where
  "numberRx = Seq (oneOrMore isDigit) (Opt (Seq dot (oneOrMore isDigit)))"

definition chapterWordRx :: rx where
  "chapterWordRx =
     Seq (Alt (lit_ci ''chapter'')
           (Alt (Seq (lit_ci ''ch'') (Opt dot))
             (Alt (lit_ci ''episode'') (Seq (lit_ci ''ep'') (Opt dot)))))
       (Seq (Star isSpace) (Grp 1 numberRx))"

definition leadingNumberRx :: rx where
  "leadingNumberRx = Grp 1 numberRx"

definition parseChapterNumber :: "string \<Rightarrow> string option" where
  "parseChapterNumber text =
     (let cleaned = trim text in
      case search chapterWordRx cleaned of
        Some m \<Rightarrow> group 1 m
      | None \<Rightarrow> (case matchHere leadingNumberRx cleaned of Some m \<Rightarrow> group 1 m | None \<Rightarrow> None))"

text \<open>The pattern \<open>/(\d+)\s*(day|hour|minute|week|month)s?\s*ago/i\<close> of \<open>parseDate\<close>.\<close>

definition relativeDateRx :: rx where
  "relativeDateRx =
     Seq (Grp 1 (oneOrMore isDigit))
       (Seq (Star isSpace)
         (Seq (Grp 2 (Alt (lit_ci ''day'') (Alt (lit_ci ''hour'') (Alt (lit_ci ''minute'')
                 (Alt (lit_ci ''week'') (lit_ci ''month''))))))
           (Seq (Opt (ci CHR ''s'')) (Seq (Star isSpace) (lit_ci ''ago'')))))"

text \<open>
  \<open>parseDate\<close>, run at the instant \<open>now\<close> (what \<open>new Date()\<close> reads). The two groups take
  part in every match of the pattern; a missing one is kept as a branch (\<open>parseInt\<close> of
  \<open>undefined\<close> is \<open>NaN\<close>, which invalidates the date; a method call on \<open>undefined\<close> throws).
  The amount is a Number, and so are the differences and the product passed to the setters.
\<close>

definition relativeDate :: "js_env \<Rightarrow> int \<Rightarrow> number \<Rightarrow> string \<Rightarrow> int option" where
  "relativeDate env now amount unit =
     (if unit = ''minute''
        then callSetter (setMinutes env now) (minusNumber (Num (of_int (getMinutes env now))) amount)
      else if unit = ''hour''
        then callSetter (setHours env now) (minusNumber (Num (of_int (getHours env now))) amount)
      else if unit = ''day''
        then callSetter (setDate env now) (minusNumber (Num (of_int (getDate env now))) amount)
      else if unit = ''week''
        then callSetter (setDate env now)
               (minusNumber (Num (of_int (getDate env now))) (timesNumber amount (Num 7)))
      else if unit = ''month''
        then callSetter (setMonth env now) (minusNumber (Num (of_int (getMonth env now))) amount)
      else Some now)"

definition parseDate :: "js_env \<Rightarrow> int \<Rightarrow> string \<Rightarrow> error + string" where
  "parseDate env now text =
     (let cleaned = trim text in
      case Option.bind (dateParse env cleaned) TimeClip of
        Some t \<Rightarrow> toISOString (Some t)
      | None \<Rightarrow>
          (case search relativeDateRx cleaned of
             Some relativeMatch \<Rightarrow>
               (case group 2 relativeMatch of
                  None \<Rightarrow> Inl (Error ''Cannot read properties of undefined (reading toLowerCase)'')
                | Some u \<Rightarrow>
                    let amount = (case group 1 relativeMatch of None \<Rightarrow> NaN | Some g \<Rightarrow> parseInt g)
                    in toISOString (relativeDate env now amount (toLowerCase u)))
           | None \<Rightarrow> toISOString (Some now)))"

text \<open>
  The HTML parser and its selector engine (cheerio) are not part of the repository. A
  document is represented by what the queries of the scraper return on it: for the series
  page the elements matching the chapter link selector in document order, each with the
  values the callback reads from it and from its item element.
\<close>

record chapter_link =
  href :: "string option"
  numberText :: string
  linkText :: string
  titleText :: string
  dateText :: string
  datetime :: "string option"

record series_page =
  chapterLinks :: "chapter_link list"

text \<open>\<open>a || b\<close> on strings that may be \<open>undefined\<close>: the first operand unless it is falsy.\<close>

definition orElse :: "string option \<Rightarrow> string option \<Rightarrow> string option" where
  "orElse a b = (case a of None \<Rightarrow> b | Some x \<Rightarrow> if x = [] then b else a)"

definition orText :: "string option \<Rightarrow> string \<Rightarrow> string" where
  "orText a d = (case a of None \<Rightarrow> d | Some x \<Rightarrow> if x = [] then d else x)"

text \<open>
  The callback of \<open>chapterLinks.each\<close> on one link: \<open>Inr None\<close> when it returns without a
  record, \<open>Inl\<close> when it throws.
\<close>

definition chapterOfLink :: "js_env \<Rightarrow> int \<Rightarrow> chapter_link \<Rightarrow> error + SourceChapter option" where
  "chapterOfLink env now el =
     (case extractBatotoChapterId (orText (href el) '''') of
        None \<Rightarrow> Inr None
      | Some chapId \<Rightarrow>
          if chapId = [] then Inr None
          else
            let chapterNumber = parseChapterNumber (orText (Some (numberText el)) (linkText el));
                titleTxt = (if trim (titleText el) = [] then None else Some (trim (titleText el)))
            in case parseDate env now (orText (orElse (Some (dateText el)) (datetime el)) '''') of
                 Inl e \<Rightarrow> Inl e
               | Inr published \<Rightarrow>
                   Inr (Some \<lparr>id_ch = chapId, chapter_no = chapterNumber, volume = None,
                              title = (if titleTxt \<noteq> chapterNumber then titleTxt else None),
                              language = ''en'', pages = 0, publishedAt = published,
                              externalUrl = Some (BATOTO_BASE_URL @ ''/chapter/'' @ chapId)\<rparr>))"

text \<open>
  The loop of \<open>each\<close>: the links in order, the \<open>i\<close>-th callback reading the clock at
  \<open>clock i\<close>; an exception ends it.
\<close>

fun eachLink :: "js_env \<Rightarrow> (nat \<Rightarrow> int) \<Rightarrow> nat \<Rightarrow> chapter_link list \<Rightarrow> SourceChapter list \<Rightarrow> error + SourceChapter list" where
  "eachLink env clock i [] chapters = Inr chapters"
| "eachLink env clock i (el # els) chapters =
     (case chapterOfLink env (clock i) el of
        Inl e \<Rightarrow> Inl e
      | Inr None \<Rightarrow> eachLink env clock (Suc i) els chapters
      | Inr (Some ch) \<Rightarrow> eachLink env clock (Suc i) els (chapters @ [ch]))"

text \<open>
  The comparator of the sort and \<open>Array.prototype.sort\<close>. A number is a rational or \<open>NaN\<close>
  (\<open>None\<close>); the difference of two doubles has the sign of the exact difference. The sort is stable, and a comparator result \<open>NaN\<close> counts as 0; for a consistent
  comparator this fixes the result, which the insertion sort below computes.
\<close>

definition sortNumber :: "js_env \<Rightarrow> SourceChapter \<Rightarrow> rat option" where
  "sortNumber env a =
     (case chapter_no a of
        None \<Rightarrow> Some 0
      | Some c \<Rightarrow> if c = [] then Some 0 else parseFloat (toDouble env) c)"

definition compareChapters :: "js_env \<Rightarrow> SourceChapter \<Rightarrow> SourceChapter \<Rightarrow> rat option" where
  "compareChapters env a b =
     (case (sortNumber env a, sortNumber env b) of
        (Some numA, Some numB) \<Rightarrow> Some (numA - numB)
      | _ \<Rightarrow> None)"

definition positive :: "rat option \<Rightarrow> bool" where
  "positive v = (case v of None \<Rightarrow> False | Some d \<Rightarrow> 0 < d)"

fun insertSorted :: "('a \<Rightarrow> 'a \<Rightarrow> rat option) \<Rightarrow> 'a \<Rightarrow> 'a list \<Rightarrow> 'a list" where
  "insertSorted cmp x [] = [x]"
| "insertSorted cmp x (y # ys) = (if positive (cmp x y) then y # insertSorted cmp x ys else x # y # ys)"

definition sortWith :: "('a \<Rightarrow> 'a \<Rightarrow> rat option) \<Rightarrow> 'a list \<Rightarrow> 'a list" where
  "sortWith cmp xs = foldr (insertSorted cmp) xs []"

definition seriesUrl :: "string \<Rightarrow> string" where
  "seriesUrl seriesId = BATOTO_BASE_URL @ ''/series/'' @ seriesId"

definition seriesError :: "nat \<Rightarrow> string \<Rightarrow> error" where
  "seriesError st seriesId = Error (''Batoto returned '' @ showNat st @ '' for series '' @ seriesId)"

definition noChaptersWarning :: "string \<Rightarrow> string" where
  "noChaptersWarning seriesId =
     ''[Batoto] No chapters found for series '' @ seriesId @ ''. Selectors may need updating.''"

definition scrapeBatotoChapters ::
  "js_env \<Rightarrow> (nat \<Rightarrow> int) \<Rightarrow> ('w, series_page) fetch \<Rightarrow> string \<Rightarrow> ('w, series_page) io
     \<Rightarrow> (error + SourceChapter list) \<times> ('w, series_page) io" where
  "scrapeBatotoChapters env clock fetch seriesId s =
     (case doFetch fetch (seriesUrl seriesId) s of
        (Inl e, s1) \<Rightarrow> (Inl e, s1)
      | (Inr resp, s1) \<Rightarrow>
          if \<not> ok resp then (Inl (seriesError (status resp) seriesId), s1)
          else if length (chapterLinks (body resp)) = 0
            then (Inr [], warn (noChaptersWarning seriesId) s1)
            else (case eachLink env clock 0 (chapterLinks (body resp)) [] of
                    Inl e \<Rightarrow> (Inl e, s1)
                  | Inr chapters \<Rightarrow> (Inr (sortWith (compareChapters env) chapters), s1)))"

text \<open>
  The chapter page: the elements matching the image selector and those matching the data
  attribute selector, each with the attributes read from it, and the text of all scripts.
\<close>

record img_element =
  src :: "string option"
  data_src :: "string option"
  data_lazy_src :: "string option"
  width_attr :: "string option"
  height_attr :: "string option"

record data_element =
  el_data_src :: "string option"
  el_data_lazy_src :: "string option"

record chapter_page =
  imageElements :: "img_element list"
  dataElements :: "data_element list"
  scriptText :: string

definition absoluteUrl :: "string \<Rightarrow> string" where
  "absoluteUrl u = (if startsWith u ''http'' then u else BATOTO_BASE_URL @ u)"

text \<open>
  \<open>parseInt(attr || "0", 10) || undefined\<close>: the Number that \<open>parseInt\<close> returns unless it
  is falsy.
\<close>

definition dimension :: "string option \<Rightarrow> number option" where
  "dimension a = (let v = parseInt (orText a ''0'') in if truthy v then Some v else None)"

definition pushImage :: "SourcePage list \<Rightarrow> img_element \<Rightarrow> SourcePage list" where
  "pushImage pgs el =
     (case orElse (src el) (orElse (data_src el) (data_lazy_src el)) of
        None \<Rightarrow> pgs
      | Some u \<Rightarrow>
          if u \<noteq> [] \<and> \<not> includesStr u ''placeholder'' \<and> \<not> includesStr u ''loading''
          then pgs @ [\<lparr>index = length pgs, imageUrl = absoluteUrl u,
                        width = dimension (width_attr el), height = dimension (height_attr el)\<rparr>]
          else pgs)"

definition strategy1 :: "img_element list \<Rightarrow> SourcePage list" where
  "strategy1 els = foldl pushImage [] els"

definition pushData :: "SourcePage list \<Rightarrow> data_element \<Rightarrow> SourcePage list" where
  "pushData pgs el =
     (case orElse (el_data_src el) (el_data_lazy_src el) of
        None \<Rightarrow> pgs
      | Some u \<Rightarrow>
          if u \<noteq> [] then pgs @ [\<lparr>index = length pgs, imageUrl = absoluteUrl u, width = None, height = None\<rparr>]
          else pgs)"

definition strategy2 :: "data_element list \<Rightarrow> SourcePage list" where
  "strategy2 els = foldl pushData [] els"

text \<open>The pattern \<open>/https?:\/\/[^\s"'<>]+\.(?:jpg|jpeg|png|webp|gif)/gi\<close>.\<close>

definition urlChar :: "char \<Rightarrow> bool" where
  "urlChar c = (\<not> isSpace c \<and> c \<notin> {CHR 0x22, CHR 0x27, CHR ''<'', CHR ''>''})"

definition imageUrlRx :: rx where
  "imageUrlRx =
     Seq (lit_ci ''http'') (Seq (Opt (ci CHR ''s'')) (Seq (lit ''://'') (Seq (oneOrMore urlChar)
       (Seq dot (Alt (lit_ci ''jpg'') (Alt (lit_ci ''jpeg'') (Alt (lit_ci ''png'')
          (Alt (lit_ci ''webp'') (lit_ci ''gif'')))))))))"

text \<open>\<open>[...new Set(xs)]\<close>: the first occurrence of every element, in order.\<close>

definition unique :: "'a list \<Rightarrow> 'a list" where
  "unique xs = foldl (\<lambda>seen x. if x \<in> set seen then seen else seen @ [x]) [] xs"

definition pushUrl :: "SourcePage list \<Rightarrow> string \<Rightarrow> SourcePage list" where
  "pushUrl pgs u = pgs @ [\<lparr>index = length pgs, imageUrl = u, width = None, height = None\<rparr>]"

definition strategy3 :: "string \<Rightarrow> SourcePage list" where
  "strategy3 scriptContent =
     (let uniqueUrls = filter (\<lambda>u. \<not> includesStr u ''avatar'' \<and> \<not> includesStr u ''logo'' \<and> \<not> includesStr u ''icon'')
                         (unique (matchAll imageUrlRx scriptContent))
      in foldl pushUrl [] uniqueUrls)"

definition chapterUrl :: "string \<Rightarrow> string" where
  "chapterUrl chapId = BATOTO_BASE_URL @ ''/chapter/'' @ chapId"

definition chapterError :: "nat \<Rightarrow> string \<Rightarrow> error" where
  "chapterError st chapId = Error (''Batoto returned '' @ showNat st @ '' for chapter '' @ chapId)"

definition noPagesWarning :: "string \<Rightarrow> string" where
  "noPagesWarning chapId =
     ''[Batoto] No pages found for chapter '' @ chapId @ ''. Selectors may need updating.''"

definition scrapeBatotoChapterPages ::
  "('w, chapter_page) fetch \<Rightarrow> string \<Rightarrow> ('w, chapter_page) io
     \<Rightarrow> (error + SourceChapterPages) \<times> ('w, chapter_page) io" where
  "scrapeBatotoChapterPages fetch chapId s =
     (case doFetch fetch (chapterUrl chapId) s of
        (Inl e, s1) \<Rightarrow> (Inl e, s1)
      | (Inr resp, s1) \<Rightarrow>
          if \<not> ok resp then (Inl (chapterError (status resp) chapId), s1)
          else
            let pages1 = strategy1 (imageElements (body resp));
                pages2 = (if length pages1 = 0 then strategy2 (dataElements (body resp)) else pages1);
                pages3 = (if length pages2 = 0 then strategy3 (scriptText (body resp)) else pages2)
            in (Inr \<lparr>chapterId = chapId, pages_list = pages3, referer = Some BATOTO_BASE_URL\<rparr>,
                if length pages3 = 0 then warn (noPagesWarning chapId) s1 else s1))"

text \<open>Sample elements for concrete runs.\<close>

definition sampleLink :: "string \<Rightarrow> string \<Rightarrow> string \<Rightarrow> string \<Rightarrow> chapter_link" where
  "sampleLink h n t d =
     \<lparr>href = Some h, numberText = n, linkText = n, titleText = t, dateText = d, datetime = None\<rparr>"

definition sampleImg :: "string \<Rightarrow> string option \<Rightarrow> string option \<Rightarrow> img_element" where
  "sampleImg u w h = \<lparr>src = Some u, data_src = None, data_lazy_src = None, width_attr = w, height_attr = h\<rparr>"

definition sampleRecord :: "string \<Rightarrow> string option \<Rightarrow> SourceChapter" where
  "sampleRecord i c =
     \<lparr>id_ch = i, chapter_no = c, volume = None, title = None, language = ''en'', pages = 0,
      publishedAt = ''2025-11-02T00:00:00.000Z'', externalUrl = Some (''https://mto.to/chapter/'' @ i)\<rparr>"

definition samplePage :: series_page where
  "samplePage =
     \<lparr>chapterLinks = [sampleLink ''/chapter/a'' ''Chapter 2'' [] [], sampleLink ''/chapter/b'' ''Extra'' [] [],
                      sampleLink ''/chapter/c'' ''Chapter 1'' [] [], sampleLink ''/chapter/d'' ''Chapter 10'' [] []]\<rparr>"

text \<open>
  A link whose number element and title element both have the text \<open>Chapter 5\<close>; the text of
  the link is the text of both.
\<close>

definition duplicateLink :: chapter_link where
  "duplicateLink =
     \<lparr>href = Some ''/chapter/b'', numberText = ''Chapter 5'', linkText = ''Chapter 5Chapter 5'',
      titleText = ''Chapter 5'', dateText = [], datetime = None\<rparr>"

definition duplicatePage :: series_page where
  "duplicatePage = \<lparr>chapterLinks = [duplicateLink]\<rparr>"

definition farPastLink :: chapter_link where
  "farPastLink = sampleLink ''/chapter/a'' ''Chapter 5'' [] ''999999999 days ago''"

definition farPastPage :: series_page where
  "farPastPage = \<lparr>chapterLinks = [farPastLink]\<rparr>"

section \<open>Rounding to a double\<close>

text \<open>
  The binary length bounds a number from both sides. With it, the Number value for an
  integer below \<open>2\<^sup>5\<^sup>3\<close> in absolute value is the integer itself, the Number value for any
  integer is an integer or an infinity, and it is \<open>Infinity\<close> from \<open>2\<^sup>1\<^sup>0\<^sup>2\<^sup>4\<close> on.
\<close>

lemma bitLength_bound: "n < 2 ^ bitLength n"
proof (induction n rule: bitLength.induct)
  case (1 n)
  show ?case
  proof (cases "n = 0")
    case True
    then show ?thesis by (subst bitLength.simps) simp
  next
    case False
    from 1[OF False] have "n div 2 < 2 ^ bitLength (n div 2)" .
    then have "n < 2 * 2 ^ bitLength (n div 2)" by arith
    then show ?thesis using False by (subst bitLength.simps) simp
  qed
qed

lemma bitLength_lower: "n \<noteq> 0 \<Longrightarrow> 2 ^ (bitLength n - 1) \<le> n"
proof (induction n rule: bitLength.induct)
  case (1 n)
  have b: "bitLength n = Suc (bitLength (n div 2))" using "1.prems" by (subst bitLength.simps) simp
  show ?case
  proof (cases "n div 2 = 0")
    case True
    then have "bitLength (n div 2) = 0" by (subst bitLength.simps) simp
    then show ?thesis using b "1.prems" by simp
  next
    case False
    from "1.IH"[OF "1.prems" False] have ih: "2 ^ (bitLength (n div 2) - 1) \<le> n div 2" .
    have "bitLength (n div 2) \<noteq> 0" using False by (subst bitLength.simps) simp
    then have "(2::nat) ^ bitLength (n div 2) = 2 * 2 ^ (bitLength (n div 2) - 1)"
      by (cases "bitLength (n div 2)") simp_all
    then have "(2::nat) ^ bitLength (n div 2) \<le> n" using ih by arith
    then show ?thesis using b by simp
  qed
qed

lemma bitLength_pos: "n \<noteq> 0 \<Longrightarrow> 0 < bitLength n"
  by (subst bitLength.simps) simp

lemma roundHalfEven_of_int: "roundHalfEven (of_int k) = k"
  by (simp add: roundHalfEven_def)

lemma log2floor_of_nat: "n \<noteq> 0 \<Longrightarrow> log2floor (of_nat n) = int (bitLength n) - 1"
  by (simp add: log2floor_def)

lemma pow2_neg: "pow2 (- int k) = 1 / 2 ^ k"
proof (cases "k = 0")
  case True
  then show ?thesis by (simp add: pow2_def)
next
  case False
  then have "\<not> 0 \<le> - int k" by simp
  then have "pow2 (- int k) = 1 / 2 ^ nat (- (- int k))" by (simp only: pow2_def if_False)
  then show ?thesis by (simp only: minus_minus nat_int)
qed

lemma pow2_pos: "pow2 (int k) = 2 ^ k"
  by (simp add: pow2_def)


lemma magnitude_small:
  assumes "n \<noteq> 0" and "bitLength n \<le> 53"
  shows "of_int (roundHalfEven (of_nat n / pow2 (max (log2floor (of_nat n)) (- 1022) - 52))) *
           pow2 (max (log2floor (of_nat n)) (- 1022) - 52) = (of_nat n :: rat)"
proof -
  define b where "b = bitLength n"
  have b: "0 < b" "b \<le> 53" using assms bitLength_pos by (simp_all add: b_def)
  have e: "max (log2floor (of_nat n)) (- 1022) - 52 = - int (53 - b)"
    using b by (simp add: log2floor_of_nat[OF assms(1)] b_def[symmetric])
  have q: "pow2 (- int (53 - b)) = 1 / 2 ^ (53 - b)"
    by (rule pow2_neg)
  have "(of_nat n :: rat) / (1 / 2 ^ (53 - b)) = of_int (int (n * 2 ^ (53 - b)))" by simp
  then have "roundHalfEven (of_nat n / (1 / 2 ^ (53 - b))) = int (n * 2 ^ (53 - b))"
    using roundHalfEven_of_int by metis
  then show ?thesis unfolding e q by simp
qed

lemma magnitude_large:
  assumes "n \<noteq> 0" and "53 < bitLength n"
  shows "\<exists>j. of_int (roundHalfEven (of_nat n / pow2 (max (log2floor (of_nat n)) (- 1022) - 52))) *
           pow2 (max (log2floor (of_nat n)) (- 1022) - 52) = (of_int j :: rat)"
proof -
  define b where "b = bitLength n"
  have b: "53 < b" using assms by (simp add: b_def)
  have e: "max (log2floor (of_nat n)) (- 1022) - 52 = int (b - 53)"
    using b by (simp add: log2floor_of_nat[OF assms(1)] b_def[symmetric])
  have q: "pow2 (int (b - 53)) = of_int (2 ^ (b - 53))"
    by (simp add: pow2_def)
  show ?thesis unfolding e q
    by (metis of_int_mult)
qed

lemma numberValue_of_nat_exact:
  assumes "n < 2 ^ 53"
  shows "numberValue (of_nat n) = Num (of_nat n)"
proof (cases "n = 0")
  case True
  then show ?thesis by (simp add: numberValue_def)
next
  case False
  have "bitLength n \<le> 53"
  proof (rule ccontr)
    assume "\<not> bitLength n \<le> 53"
    then have "53 \<le> bitLength n - 1" by simp
    then have "(2::nat) ^ 53 \<le> 2 ^ (bitLength n - 1)" by (rule power_increasing) simp
    with bitLength_lower[OF False] assms show False by simp
  qed
  from magnitude_small[OF False this] have m:
    "of_int (roundHalfEven (of_nat n / pow2 (max (log2floor (of_nat n)) (- 1022) - 52))) *
           pow2 (max (log2floor (of_nat n)) (- 1022) - 52) = (of_nat n :: rat)" .
  have "(of_nat n :: rat) < of_nat (2 ^ 53)" using assms by (simp only: of_nat_less_iff)
  also have "\<dots> \<le> 2 ^ 1024" by simp
  finally have lt: "\<not> (2 ^ 1024 \<le> (of_nat n :: rat))" by simp
  show ?thesis using False lt
    by (simp add: numberValue_def Let_def m)
qed

lemma numberValue_minus: "numberValue (- x) = (case numberValue x of Num r \<Rightarrow> Num (- r)
     | PosInfinity \<Rightarrow> NegInfinity | NegInfinity \<Rightarrow> PosInfinity | NaN \<Rightarrow> NaN)"
  by (cases "x = 0"; cases "x < 0") (auto simp: numberValue_def Let_def)

lemma numberValue_of_int_exact:
  assumes "\<bar>i\<bar> < 2 ^ 53"
  shows "numberValue (of_int i) = Num (of_int i)"
proof (cases "0 \<le> i")
  case True
  then have "nat i < 2 ^ 53" using assms by (simp add: nat_less_iff)
  from numberValue_of_nat_exact[OF this] show ?thesis using True by simp
next
  case False
  then have "nat (- i) < 2 ^ 53" using assms by (simp add: nat_less_iff)
  from numberValue_of_nat_exact[OF this] have "numberValue (of_int (- i)) = Num (of_int (- i))"
    using False by simp
  then have "numberValue (- of_int (- i)) = Num (of_int i)"
    by (simp add: numberValue_minus del: of_int_minus)
  then show ?thesis by simp
qed

lemma numberValue_of_nat_cases:
  "numberValue (of_nat n) = PosInfinity \<or> (\<exists>j. numberValue (of_nat n) = Num (of_int j))"
proof (cases "n = 0")
  case True
  then show ?thesis by (simp add: numberValue_def)
next
  case False
  have "\<exists>j. of_int (roundHalfEven (of_nat n / pow2 (max (log2floor (of_nat n)) (- 1022) - 52))) *
           pow2 (max (log2floor (of_nat n)) (- 1022) - 52) = (of_int j :: rat)"
  proof (cases "bitLength n \<le> 53")
    case True
    from magnitude_small[OF False True] show ?thesis by (metis of_int_of_nat_eq)
  next
    case f: False
    then show ?thesis using magnitude_large[OF False] by simp
  qed
  then obtain j where "of_int (roundHalfEven (of_nat n / pow2 (max (log2floor (of_nat n)) (- 1022) - 52))) *
           pow2 (max (log2floor (of_nat n)) (- 1022) - 52) = (of_int j :: rat)" by blast
  then show ?thesis using False by (simp add: numberValue_def Let_def)
qed

lemma numberValue_of_int_cases:
  "numberValue (of_int i) = PosInfinity \<or> numberValue (of_int i) = NegInfinity \<or>
   (\<exists>j. numberValue (of_int i) = Num (of_int j))"
proof (cases "0 \<le> i")
  case True
  then have "rat_of_int i = of_nat (nat i)" by simp
  then show ?thesis using numberValue_of_nat_cases[of "nat i"] by metis
next
  case False
  have "numberValue (of_int i) = numberValue (- of_nat (nat (- i)))" using False by simp
  then show ?thesis using numberValue_of_nat_cases[of "nat (- i)"]
    by (auto simp: numberValue_minus simp del: of_int_minus)
       (metis of_int_minus)
qed

lemma numberValue_overflow:
  assumes "2 ^ 1024 \<le> n"
  shows "numberValue (of_nat n) = PosInfinity"
proof -
  have n0: "n \<noteq> 0" using assms by auto
  define b where "b = bitLength n"
  have lt: "(2::nat) ^ 1024 < 2 ^ b" using assms bitLength_bound[of n] unfolding b_def by (rule le_less_trans)
  have b: "1024 < b" by (rule power_less_imp_less_exp[OF _ lt]) simp
  have e: "max (log2floor (of_nat n)) (- 1022) - 52 = int (b - 53)"
    using b by (simp add: log2floor_of_nat[OF n0] b_def[symmetric])
  have q: "pow2 (int (b - 53)) = 2 ^ (b - 53)" by (simp add: pow2_def)
  have low: "(2::nat) ^ (b - 1) \<le> n" using bitLength_lower[OF n0] by (simp add: b_def)
  have ex: "52 + (b - 53) = b - 1" using b by simp
  have p: "(2::rat) ^ 52 * 2 ^ (b - 53) = 2 ^ (b - 1)"
    unfolding ex[symmetric] by (simp only: power_add)
  note p
  also have "(2::rat) ^ (b - 1) = of_nat (2 ^ (b - 1))" by simp
  also have "\<dots> \<le> of_nat n" using low by (simp only: of_nat_le_iff)
  finally have "(2::rat) ^ 52 \<le> of_nat n / 2 ^ (b - 53)" by (simp add: pos_le_divide_eq)
  then have "(of_int (2 ^ 52) :: rat) \<le> of_nat n / 2 ^ (b - 53)" by simp
  then have "2 ^ 52 \<le> \<lfloor>(of_nat n :: rat) / 2 ^ (b - 53)\<rfloor>" by (simp only: le_floor_iff)
  moreover have "\<lfloor>x\<rfloor> \<le> roundHalfEven x" for x by (simp add: roundHalfEven_def Let_def)
  ultimately have "2 ^ 52 \<le> roundHalfEven (of_nat n / 2 ^ (b - 53))" by (rule order_trans)
  then have "(of_int (2 ^ 52) :: rat) \<le> of_int (roundHalfEven (of_nat n / 2 ^ (b - 53)))"
    by (simp only: of_int_le_iff)
  then have "(2::rat) ^ 52 * 2 ^ (b - 53) \<le> of_int (roundHalfEven (of_nat n / 2 ^ (b - 53))) * 2 ^ (b - 53)"
    by (simp add: mult_right_mono)
  moreover have "(2::rat) ^ 1024 \<le> 2 ^ 52 * 2 ^ (b - 53)"
  proof -
    have "(2::rat) ^ 1024 \<le> 2 ^ (b - 1)" using b by (intro power_increasing) simp_all
    then show ?thesis by (simp only: p)
  qed
  ultimately have "(2::rat) ^ 1024 \<le> of_int (roundHalfEven (of_nat n / 2 ^ (b - 53))) * 2 ^ (b - 53)"
    by (rule order_trans[rotated])
  then show ?thesis using n0
    by (simp add: numberValue_def Let_def e q)
qed

lemma bitLength_numeral: "bitLength (numeral k) = Suc (bitLength (numeral k div 2))"
  by (subst bitLength.simps) simp

lemma bitLength_0: "bitLength 0 = 0"
  by (subst bitLength.simps) simp

lemma bitLength_1: "bitLength (Suc 0) = 1"
  by (subst bitLength.simps) (simp add: bitLength_0)

lemma numberValue_numeral:
  "(numeral k :: int) < 2 ^ 53 \<Longrightarrow> numberValue (numeral k) = Num (numeral k)"
  "(numeral k :: int) < 2 ^ 53 \<Longrightarrow> numberValue (- numeral k) = Num (- numeral k)"
  "numberValue 0 = Num 0" "numberValue 1 = Num 1" "numberValue (- 1) = Num (- 1)"
  "2 ^ 1024 \<le> (numeral k :: nat) \<Longrightarrow> numberValue (numeral k) = PosInfinity"
  using numberValue_of_int_exact[of "numeral k"] numberValue_of_int_exact[of "- numeral k"]
    numberValue_of_int_exact[of 0] numberValue_of_int_exact[of 1] numberValue_of_int_exact[of "- 1"]
    numberValue_overflow[of "numeral k"]
  by simp_all

lemma floor_rat_numeral: "\<lfloor>(numeral a :: rat) / numeral b\<rfloor> = numeral a div numeral b"
  using floor_divide_of_int_eq[where 'a = rat, of "numeral a" "numeral b"] by simp

lemmas number_eval = floor_rat_numeral numberValue_def log2floor_def pow2_def roundHalfEven_def bitLength_numeral bitLength_0
  bitLength_1 Let_def

lemma rounded_example: "numberValue 9007199254740993 = Num 9007199254740992"
  by (simp add: number_eval)

section \<open>Pagination of the MangaDex chapter feed\<close>

text \<open>
  One run of the loop, read off the request log: the requests it adds are consecutive
  offsets from the starting one, every page but the last was full, and the result is decided
  by the last answer.
\<close>

lemma paginate_run:
  "paginate fetch mangaId offset acc s = (r, s') \<Longrightarrow>
   \<exists>es. requests s' = requests s @ es \<and> es \<noteq> [] \<and>
        map fst es = map (\<lambda>k. chaptersUrl mangaId (offset + k * batchSize)) [0..<length es] \<and>
        (\<forall>i. Suc i < length es \<longrightarrow> fullPage (snd (es ! i))) \<and>
        offset + (length es - 1) * batchSize \<le> max offset 10000 \<and>
        r = (case snd (last es) of
               Inl e \<Rightarrow> Inl e
             | Inr resp \<Rightarrow>
                 if \<not> ok resp \<and> offset = 0 \<and> length es = 1 then Inl (firstPageError (status resp))
                 else Inr (acc @ collected es)) \<and>
        console s' = console s @
          (if fullPage (snd (last es)) then [safetyWarning (offset + length es * batchSize)] else []) \<and>
        (fullPage (snd (last es)) \<longrightarrow> 10000 < offset + length es * batchSize)"
proof (induction fetch mangaId offset acc s arbitrary: r s' rule: paginate.induct)
  case (1 fetch mangaId offset allChapters s)
  obtain out w' where f: "fetch (world s) (chaptersUrl mangaId offset) = (out, w')"
    by (cases "fetch (world s) (chaptersUrl mangaId offset)")
  define s1 where "s1 = s\<lparr>world := w', requests := requests s @ [(chaptersUrl mangaId offset, out)]\<rparr>"
  have d: "doFetch fetch (chaptersUrl mangaId offset) s = (out, s1)"
    by (simp add: doFetch_def f s1_def)
  have rs1: "requests s1 = requests s @ [(chaptersUrl mangaId offset, out)]" "console s1 = console s"
    by (simp_all add: s1_def)
  let ?e = "(chaptersUrl mangaId offset, out)"
  show ?case
  proof (cases "fullPage out \<and> \<not> offset + batchSize > 10000")
    case False
    then have "r = (case out of Inl e \<Rightarrow> Inl e | Inr resp \<Rightarrow>
                 if \<not> ok resp \<and> offset = 0 then Inl (firstPageError (status resp))
                 else Inr (allChapters @ pageChapters out))
        \<and> s' = (if fullPage out then warn (safetyWarning (offset + batchSize)) s1 else s1)"
      using "1.prems" d
      by (subst (asm) paginate.simps)
         (auto simp: fullPage_def pageChapters_def Let_def split: sum.splits if_splits)
    then show ?thesis using False rs1
      by (intro exI[of _ "[?e]"]) (auto simp: collected_def warn_def fullPage_def split: sum.splits)
  next
    case True
    then obtain resp where o: "out = Inr resp" "ok resp" "\<not> length (body resp) < batchSize"
      "\<not> offset + batchSize > 10000"
      by (auto simp: fullPage_def split: sum.splits)
    have rec: "paginate fetch mangaId (offset + batchSize) (allChapters @ map toSourceChapter (body resp)) s1 = (r, s')"
      using "1.prems" d o by (subst (asm) paginate.simps) (simp add: Let_def)
    have nn: "\<not> \<not> ok resp" using o by simp
    from "1.IH"[OF d[symmetric] o(1) nn refl o(3) o(4) rec]
    obtain es where es: "requests s' = requests s1 @ es" "es \<noteq> []"
        "map fst es = map (\<lambda>k. chaptersUrl mangaId (offset + batchSize + k * batchSize)) [0..<length es]"
        "\<forall>i. Suc i < length es \<longrightarrow> fullPage (snd (es ! i))"
        "offset + batchSize + (length es - 1) * batchSize \<le> max (offset + batchSize) 10000"
        "r = (case snd (last es) of
               Inl e \<Rightarrow> Inl e
             | Inr resp' \<Rightarrow>
                 if \<not> ok resp' \<and> offset + batchSize = 0 \<and> length es = 1 then Inl (firstPageError (status resp'))
                 else Inr ((allChapters @ map toSourceChapter (body resp)) @ collected es))"
        "console s' = console s1 @
          (if fullPage (snd (last es)) then [safetyWarning (offset + batchSize + length es * batchSize)] else [])"
        "fullPage (snd (last es)) \<longrightarrow> 10000 < offset + batchSize + length es * batchSize"
      by auto
    have bs: "batchSize > 0" by (simp add: batchSize_def)
    have m: "map fst (?e # es) = map (\<lambda>k. chaptersUrl mangaId (offset + k * batchSize)) [0..<length (?e # es)]"
      using es(3) by (simp add: upt_conv_Cons map_Suc_upt[symmetric] ac_simps del: upt_Suc)
    have full: "\<forall>i. Suc i < length (?e # es) \<longrightarrow> fullPage (snd ((?e # es) ! i))"
      using es(4) True by (auto simp: nth_Cons split: nat.splits)
    have c: "collected (?e # es) = map toSourceChapter (body resp) @ collected es"
      using o by (simp add: collected_def pageChapters_def)
    show ?thesis
      apply (rule exI[of _ "?e # es"])
      using es rs1 m full c o bs
      apply (intro conjI)
             apply (simp_all add: algebra_simps split: sum.splits)
      done
  qed
qed

lemma showNat_numeral:
  "showNat (numeral k) =
     (if numeral k < (10::nat) then [digitChar (numeral k)]
      else showNat (numeral k div 10) @ [digitChar (numeral k mod 10)])"
  by (rule showNat.simps)

lemma showNat_0: "showNat 0 = ''0''"
  by (subst showNat.simps) (simp add: digitChar_def)

lemma showNat_1: "showNat (Suc 0) = ''1''"
  by (subst showNat.simps) (simp add: digitChar_def)

lemmas showNat_eval = showNat_numeral showNat_0 showNat_1 digitChar_def

lemma showNat_small: "showNat 0 = ''0''" "showNat 500 = ''500''" "showNat 404 = ''404''"
  by (simp_all add: showNat_eval)

lemma getMangaDexChapters_run:
  assumes "getMangaDexChapters fetch mangaId opts (fresh w) = (r, s')"
  shows "requests s' \<noteq> [] \<and>
         map fst (requests s') = map (\<lambda>k. chaptersUrl mangaId (k * batchSize)) [0..<length (requests s')] \<and>
         (\<forall>i. Suc i < length (requests s') \<longrightarrow> fullPage (snd (requests s' ! i))) \<and>
         (length (requests s') - 1) * batchSize \<le> 10000 \<and>
         r = (case snd (last (requests s')) of
               Inl e \<Rightarrow> Inl e
             | Inr resp \<Rightarrow>
                 if \<not> ok resp \<and> length (requests s') = 1 then Inl (firstPageError (status resp))
                 else Inr (clientFilters opts (collected (requests s')))) \<and>
         console s' =
          (if fullPage (snd (last (requests s'))) then [safetyWarning (length (requests s') * batchSize)] else []) \<and>
         (fullPage (snd (last (requests s'))) \<longrightarrow> 10000 < length (requests s') * batchSize)"
proof -
  obtain r0 where p: "paginate fetch mangaId 0 [] (fresh w) = (r0, s')"
    and r: "r = (case r0 of Inl e \<Rightarrow> Inl e | Inr cs \<Rightarrow> Inr (clientFilters opts cs))"
    using assms by (auto simp: getMangaDexChapters_def split: prod.splits sum.splits)
  from paginate_run[OF p] obtain es where es:
    "requests s' = requests (fresh w :: ('a, api_chapter list) io) @ es" "es \<noteq> []"
    "map fst es = map (\<lambda>k. chaptersUrl mangaId (0 + k * batchSize)) [0..<length es]"
    "\<forall>i. Suc i < length es \<longrightarrow> fullPage (snd (es ! i))"
    "0 + (length es - 1) * batchSize \<le> max 0 10000"
    "r0 = (case snd (last es) of
               Inl e \<Rightarrow> Inl e
             | Inr resp \<Rightarrow>
                 if \<not> ok resp \<and> (0::nat) = 0 \<and> length es = 1 then Inl (firstPageError (status resp))
                 else Inr ([] @ collected es))"
    "console s' = console (fresh w :: ('a, api_chapter list) io) @
          (if fullPage (snd (last es)) then [safetyWarning (0 + length es * batchSize)] else [])"
    "fullPage (snd (last es)) \<longrightarrow> 10000 < 0 + length es * batchSize"
    by blast
  have e: "requests s' = es" using es(1) by (simp add: fresh_def)
  show ?thesis
    unfolding e using es(2-) r
    by (simp add: fresh_def split: sum.splits)
qed


lemma clientFilters_noOptions: "clientFilters noOptions cs = cs"
  by (simp add: clientFilters_def noOptions_def filterLanguage_def applyLimit_def)

lemma collected_take_full:
  "collected (take i es) = concat (map (pageChapters \<circ> snd) (take i es))"
  by (simp add: collected_def)

lemma collected_nonok_last:
  assumes "es \<noteq> []" "httpFailure (snd (last es))"
  shows "collected es = collected (butlast es)"
proof -
  have "es = butlast es @ [last es]" using assms by simp
  then have "collected es = collected (butlast es) @ pageChapters (snd (last es))"
    by (metis (no_types, lifting) collected_def comp_apply concat.simps(1,2) concat_append list.simps(8,9) map_append append_Nil2)
  then show ?thesis using assms(2) by (auto simp: httpFailure_def pageChapters_def split: sum.splits)
qed

lemma paginate_rejected:
  "fetch (world s) (chaptersUrl mangaId offset) = (Inl e, w') \<Longrightarrow>
   paginate fetch mangaId offset acc s =
     (Inl e, s\<lparr>world := w', requests := requests s @ [(chaptersUrl mangaId offset, Inl e)]\<rparr>)"
  by (subst paginate.simps) (simp add: doFetch_def)

lemma paginate_http_failure:
  "fetch (world s) (chaptersUrl mangaId offset) = (Inr resp, w') \<Longrightarrow> \<not> ok resp \<Longrightarrow>
   paginate fetch mangaId offset acc s =
     (if offset = 0 then Inl (firstPageError (status resp)) else Inr acc,
      s\<lparr>world := w', requests := requests s @ [(chaptersUrl mangaId offset, Inr resp)]\<rparr>)"
  by (subst paginate.simps) (simp add: doFetch_def)

lemma paginate_short_page:
  "fetch (world s) (chaptersUrl mangaId offset) = (Inr resp, w') \<Longrightarrow> ok resp \<Longrightarrow>
   length (body resp) < batchSize \<Longrightarrow>
   paginate fetch mangaId offset acc s =
     (Inr (acc @ map toSourceChapter (body resp)),
      s\<lparr>world := w', requests := requests s @ [(chaptersUrl mangaId offset, Inr resp)]\<rparr>)"
  by (subst paginate.simps) (simp add: doFetch_def)

lemma paginate_ceiling:
  "fetch (world s) (chaptersUrl mangaId offset) = (Inr resp, w') \<Longrightarrow> ok resp \<Longrightarrow>
   batchSize \<le> length (body resp) \<Longrightarrow> 10000 < offset + batchSize \<Longrightarrow>
   paginate fetch mangaId offset acc s =
     (Inr (acc @ map toSourceChapter (body resp)),
      warn (safetyWarning (offset + batchSize))
        (s\<lparr>world := w', requests := requests s @ [(chaptersUrl mangaId offset, Inr resp)]\<rparr>))"
  by (subst paginate.simps) (simp add: doFetch_def)

lemma paginate_next_page:
  "fetch (world s) (chaptersUrl mangaId offset) = (Inr resp, w') \<Longrightarrow> ok resp \<Longrightarrow>
   batchSize \<le> length (body resp) \<Longrightarrow> offset + batchSize \<le> 10000 \<Longrightarrow>
   paginate fetch mangaId offset acc s =
     paginate fetch mangaId (offset + batchSize) (acc @ map toSourceChapter (body resp))
       (s\<lparr>world := w', requests := requests s @ [(chaptersUrl mangaId offset, Inr resp)]\<rparr>)"
  by (subst paginate.simps) (simp add: doFetch_def)

lemmas paginate_steps = paginate_rejected paginate_http_failure paginate_short_page
  paginate_ceiling paginate_next_page

text \<open>The decimal rendering is injective, so different offsets give different URLs.\<close>

lemma digitVal_digitChar: "d < 10 \<Longrightarrow> digitVal (digitChar d) = d"
proof -
  assume "d < 10"
  then have "d \<in> {0, 1, 2, 3, 4, 5, 6, 7, 8, 9}" by auto
  then show ?thesis by (auto simp: digitVal_def digitChar_def)
qed

lemma readNat_showNat: "readNat (showNat n) = n"
proof (induction n rule: showNat.induct)
  case (1 n)
  show ?case
  proof (cases "n < 10")
    case True
    then show ?thesis by (subst showNat.simps) (simp add: readNat_def digitVal_digitChar)
  next
    case False
    then have "readNat (showNat (n div 10)) = n div 10" using 1 by simp
    then show ?thesis using False
      by (subst showNat.simps) (simp add: readNat_def digitVal_digitChar)
  qed
qed

lemma showNat_inj: "showNat a = showNat b \<Longrightarrow> a = b"
  by (metis readNat_showNat)

lemma chaptersUrl_inj: "chaptersUrl mangaId a = chaptersUrl mangaId b \<Longrightarrow> a = b"
  by (simp add: chaptersUrl_def showNat_inj)

lemma distinct_chapter_urls: "distinct (map (\<lambda>k. chaptersUrl mangaId (k * batchSize)) [0..<n])"
  by (auto simp: distinct_map inj_on_def batchSize_def dest!: chaptersUrl_inj)

lemma chaptersUrl_literal:
  "chaptersUrl mangaId 0 = ''/api/reader/'' @ mangaId @ ''/chapters?limit=500&offset=0''"
  "chaptersUrl mangaId 500 = ''/api/reader/'' @ mangaId @ ''/chapters?limit=500&offset=500''"
  by (simp_all add: chaptersUrl_def batchSize_def showNat_small)

lemma scripted_Cons: "scripted (out # rest) url = (out, rest)"
  by (simp add: scripted_def)

lemma safetyWarning_10500:
  "safetyWarning 10500 = ''[MangaDex] Safety limit reached at offset 10500''"
  by (simp add: safetyWarning_def showNat_eval)

text \<open>
  Claim C2. The requests of one call are for the offsets 0, 500, 1000, ... in this order, no
  URL is requested twice, and every page but the last one arrived with at least 500 items.
  When the first page has exactly 500 items and the second one 200, exactly these two
  requests are made and the 700 chapters of both pages are the fetched list.
\<close>

theorem offsets_advance_by_batch_size:
  assumes "getMangaDexChapters fetch mangaId opts (fresh w) = (r, s')"
  shows "map fst (requests s') = map (\<lambda>k. chaptersUrl mangaId (k * 500)) [0..<length (requests s')] \<and>
         distinct (map fst (requests s')) \<and>
         (\<forall>i. Suc i < length (requests s') \<longrightarrow>
            (\<exists>resp. snd (requests s' ! i) = Inr resp \<and> ok resp \<and> 500 \<le> length (body resp))) \<and>
         (\<forall>p1 w1 p2 w2.
            fetch w (chaptersUrl mangaId 0) = (Inr p1, w1) \<and> ok p1 \<and> length (body p1) = 500 \<and>
            fetch w1 (chaptersUrl mangaId 500) = (Inr p2, w2) \<and> ok p2 \<and> length (body p2) = 200 \<longrightarrow>
            map fst (requests s') = [chaptersUrl mangaId 0, chaptersUrl mangaId 500] \<and>
            r = Inr (clientFilters opts (map toSourceChapter (body p1 @ body p2))) \<and>
            length (map toSourceChapter (body p1 @ body p2)) = 700)"
proof -
  let ?es = "requests s'"
  note run = getMangaDexChapters_run[OF assms]
  have urls: "map fst ?es = map (\<lambda>k. chaptersUrl mangaId (k * 500)) [0..<length ?es]"
    using run by (simp add: batchSize_def)
  have dist: "distinct (map fst ?es)"
    using distinct_chapter_urls[of mangaId "length ?es"] run by simp
  have full: "\<exists>resp. snd (?es ! i) = Inr resp \<and> ok resp \<and> 500 \<le> length (body resp)"
    if "Suc i < length ?es" for i
  proof -
    have "fullPage (snd (?es ! i))" using run that by blast
    then show ?thesis by (auto simp: fullPage_def batchSize_def split: sum.splits)
  qed
  have ex: "map fst ?es = [chaptersUrl mangaId 0, chaptersUrl mangaId 500] \<and>
            r = Inr (clientFilters opts (map toSourceChapter (body p1 @ body p2))) \<and>
            length (map toSourceChapter (body p1 @ body p2)) = 700"
    if h: "fetch w (chaptersUrl mangaId 0) = (Inr p1, w1)" "ok p1" "length (body p1) = 500"
       "fetch w1 (chaptersUrl mangaId 500) = (Inr p2, w2)" "ok p2" "length (body p2) = 200"
    for p1 w1 p2 w2
  proof -
    have "getMangaDexChapters fetch mangaId opts (fresh w) =
       (Inr (clientFilters opts (map toSourceChapter (body p1 @ body p2))),
        \<lparr>world = w2, requests = [(chaptersUrl mangaId 0, Inr p1), (chaptersUrl mangaId 500, Inr p2)],
         console = []\<rparr>)"
      using h by (simp add: getMangaDexChapters_def paginate_steps fresh_def batchSize_def)
    with assms have "r = Inr (clientFilters opts (map toSourceChapter (body p1 @ body p2)))"
      and "s' = \<lparr>world = w2, requests = [(chaptersUrl mangaId 0, Inr p1), (chaptersUrl mangaId 500, Inr p2)],
         console = []\<rparr>" by simp_all
    then show ?thesis using h(3,6) by simp
  qed
  show ?thesis
  proof (intro conjI allI impI)
    show "map fst ?es = map (\<lambda>k. chaptersUrl mangaId (k * 500)) [0..<length ?es]" by (rule urls)
    show "distinct (map fst ?es)" by (rule dist)
    show "\<exists>resp. snd (?es ! i) = Inr resp \<and> ok resp \<and> 500 \<le> length (body resp)"
      if "Suc i < length ?es" for i using full[OF that] .
    show "map fst ?es = [chaptersUrl mangaId 0, chaptersUrl mangaId 500]"
      if "fetch w (chaptersUrl mangaId 0) = (Inr p1, w1) \<and> ok p1 \<and> length (body p1) = 500 \<and>
            fetch w1 (chaptersUrl mangaId 500) = (Inr p2, w2) \<and> ok p2 \<and> length (body p2) = 200"
      for p1 w1 p2 w2 using that ex[of p1 w1 p2 w2] by simp
    show "r = Inr (clientFilters opts (map toSourceChapter (body p1 @ body p2)))"
      if "fetch w (chaptersUrl mangaId 0) = (Inr p1, w1) \<and> ok p1 \<and> length (body p1) = 500 \<and>
            fetch w1 (chaptersUrl mangaId 500) = (Inr p2, w2) \<and> ok p2 \<and> length (body p2) = 200"
      for p1 w1 p2 w2 using that ex[of p1 w1 p2 w2] by simp
    show "length (map toSourceChapter (body p1 @ body p2)) = 700"
      if "fetch w (chaptersUrl mangaId 0) = (Inr p1, w1) \<and> ok p1 \<and> length (body p1) = 500 \<and>
            fetch w1 (chaptersUrl mangaId 500) = (Inr p2, w2) \<and> ok p2 \<and> length (body p2) = 200"
      for p1 w1 p2 w2 using that by simp
  qed
qed

text \<open>
  Claim C1. The first request of \<open>getMangaDexChapters\<close> asks for offset 0. If the answer to
  it is an HTTP failure, the call rejects with the message
  \<open>Failed to fetch MangaDex chapters: <status>\<close> and nothing more is requested. If the answer to
  a later request is an HTTP failure, that request is the last one and the call resolves with
  the chapters of the pages before it, passed through the client-side filters (the identity
  when no option is given, lemma \<open>clientFilters_noOptions\<close>).
\<close>

theorem first_page_failure_rejects_later_failure_resolves:
  assumes "getMangaDexChapters fetch mangaId opts (fresh w) = (r, s')"
  shows "requests s' \<noteq> [] \<and>
         fst (requests s' ! 0) = ''/api/reader/'' @ mangaId @ ''/chapters?limit=500&offset=0'' \<and>
         (\<forall>resp. snd (requests s' ! 0) = Inr resp \<and> \<not> ok resp \<longrightarrow>
            r = Inl (Error (''Failed to fetch MangaDex chapters: '' @ showNat (status resp))) \<and>
            length (requests s') = 1) \<and>
         (\<forall>i resp. 0 < i \<and> i < length (requests s') \<and> snd (requests s' ! i) = Inr resp \<and> \<not> ok resp \<longrightarrow>
            Suc i = length (requests s') \<and>
            r = Inr (clientFilters opts (collected (take i (requests s')))))"
proof -
  let ?es = "requests s'"
  note run = getMangaDexChapters_run[OF assms]
  have ne: "?es \<noteq> []" using run by blast
  have urls: "map fst ?es = map (\<lambda>k. chaptersUrl mangaId (k * batchSize)) [0..<length ?es]"
    using run by blast
  have full: "\<And>i. Suc i < length ?es \<Longrightarrow> fullPage (snd (?es ! i))" using run by blast
  have res: "r = (case snd (last ?es) of
               Inl e \<Rightarrow> Inl e
             | Inr resp \<Rightarrow>
                 if \<not> ok resp \<and> length ?es = 1 then Inl (firstPageError (status resp))
                 else Inr (clientFilters opts (collected ?es)))" using run by blast
  have "fst (?es ! 0) = map fst ?es ! 0" using ne by simp
  also have "\<dots> = chaptersUrl mangaId 0" using ne by (subst urls) simp
  finally have first: "fst (?es ! 0) = ''/api/reader/'' @ mangaId @ ''/chapters?limit=500&offset=0''"
    by (simp add: chaptersUrl_def batchSize_def showNat_small)
  have stop: "Suc i = length ?es" if "i < length ?es" "snd (?es ! i) = Inr resp" "\<not> ok resp" for i resp
  proof (rule ccontr)
    assume "Suc i \<noteq> length ?es"
    then have "Suc i < length ?es" using that(1) by simp
    from full[OF this] that(2,3) show False by (simp add: fullPage_def)
  qed
  have a: "r = Inl (Error (''Failed to fetch MangaDex chapters: '' @ showNat (status resp))) \<and> length ?es = 1"
    if "snd (?es ! 0) = Inr resp" "\<not> ok resp" for resp
  proof -
    have l: "length ?es = 1" using stop[of 0 resp] that ne by simp
    then have "last ?es = ?es ! 0" using ne by (simp add: last_conv_nth)
    then show ?thesis using res that l by (simp add: firstPageError_def)
  qed
  have b: "Suc i = length ?es \<and> r = Inr (clientFilters opts (collected (take i ?es)))"
    if "0 < i" "i < length ?es" "snd (?es ! i) = Inr resp" "\<not> ok resp" for i resp
  proof -
    have l: "length ?es = Suc i" using stop[OF that(2-)] by simp
    have la: "last ?es = ?es ! i" using ne l by (simp add: last_conv_nth)
    have "collected ?es = collected (butlast ?es)"
      using collected_nonok_last[OF ne] la that by (simp add: httpFailure_def)
    moreover have "butlast ?es = take i ?es" using l by (simp add: butlast_conv_take)
    ultimately show ?thesis using res la that l by simp
  qed
  show ?thesis using ne first a b by blast
qed

text \<open>A concrete run for claim C1.\<close>

theorem first_page_failure_rejects_later_failure_resolves_witness:
  "getMangaDexChapters scripted ''m'' noOptions (fresh [httpError 404 []]) =
     (Inl (Error ''Failed to fetch MangaDex chapters: 404''),
      \<lparr>world = [], requests = [(''/api/reader/m/chapters?limit=500&offset=0'', httpError 404 [])],
       console = []\<rparr>) \<and>
   getMangaDexChapters scripted ''m'' noOptions
       (fresh [okPage (replicate 500 (sampleChapter ''a'' ''en'')), httpError 503 []]) =
     (Inr (replicate 500 (toSourceChapter (sampleChapter ''a'' ''en''))),
      \<lparr>world = [],
       requests = [(''/api/reader/m/chapters?limit=500&offset=0'', okPage (replicate 500 (sampleChapter ''a'' ''en''))),
                   (''/api/reader/m/chapters?limit=500&offset=500'', httpError 503 [])],
       console = []\<rparr>)"
proof -
  let ?page = "replicate 500 (sampleChapter ''a'' ''en'')"
  obtain rA sA where A: "getMangaDexChapters scripted ''m'' noOptions (fresh [httpError 404 []]) = (rA, sA)"
    by (cases "getMangaDexChapters scripted ''m'' noOptions (fresh [httpError 404 ([]::api_chapter list)])")
  have sA: "sA = \<lparr>world = [], requests = [(''/api/reader/m/chapters?limit=500&offset=0'', httpError 404 [])],
       console = []\<rparr>"
    using A by (simp add: getMangaDexChapters_def paginate_steps fresh_def scripted_Cons httpError_def
        chaptersUrl_literal)
  have rA: "rA = Inl (Error ''Failed to fetch MangaDex chapters: 404'')"
    using first_page_failure_rejects_later_failure_resolves[OF A] sA by (simp add: httpError_def showNat_small)
  obtain rB sB where B: "getMangaDexChapters scripted ''m'' noOptions (fresh [okPage ?page, httpError 503 []]) = (rB, sB)"
    by (cases "getMangaDexChapters scripted ''m'' noOptions (fresh [okPage ?page, httpError 503 []])")
  have sB: "sB = \<lparr>world = [],
       requests = [(''/api/reader/m/chapters?limit=500&offset=0'', okPage ?page),
                   (''/api/reader/m/chapters?limit=500&offset=500'', httpError 503 [])],
       console = []\<rparr>"
    using B by (simp add: getMangaDexChapters_def paginate_steps fresh_def scripted_Cons okPage_def
        httpError_def batchSize_def chaptersUrl_literal)
  have "\<forall>i resp. 0 < i \<and> i < length (requests sB) \<and> snd (requests sB ! i) = Inr resp \<and> \<not> ok resp \<longrightarrow>
            Suc i = length (requests sB) \<and>
            rB = Inr (clientFilters noOptions (collected (take i (requests sB))))"
    using first_page_failure_rejects_later_failure_resolves[OF B] by blast
  from this[rule_format, of 1 "\<lparr>ok = False, status = 503, body = []\<rparr>"]
  have "rB = Inr (clientFilters noOptions (collected (take 1 (requests sB))))"
    using sB by (simp add: httpError_def)
  then have rB: "rB = Inr (replicate 500 (toSourceChapter (sampleChapter ''a'' ''en'')))"
    using sB by (simp add: clientFilters_noOptions collected_def pageChapters_def okPage_def)
  show ?thesis using A sA rA B sB rB by simp
qed

text \<open>A concrete run for claim C2.\<close>

theorem offsets_advance_by_batch_size_witness:
  "getMangaDexChapters scripted ''m'' noOptions
       (fresh [okPage (replicate 500 (sampleChapter ''a'' ''en'')), okPage (replicate 200 (sampleChapter ''b'' ''en''))]) =
     (Inr (replicate 500 (toSourceChapter (sampleChapter ''a'' ''en'')) @
           replicate 200 (toSourceChapter (sampleChapter ''b'' ''en''))),
      \<lparr>world = [],
       requests = [(''/api/reader/m/chapters?limit=500&offset=0'', okPage (replicate 500 (sampleChapter ''a'' ''en''))),
                   (''/api/reader/m/chapters?limit=500&offset=500'', okPage (replicate 200 (sampleChapter ''b'' ''en'')))],
       console = []\<rparr>) \<and>
   length (replicate 500 (toSourceChapter (sampleChapter ''a'' ''en'')) @
           replicate 200 (toSourceChapter (sampleChapter ''b'' ''en''))) = 700"
proof -
  let ?p1 = "replicate 500 (sampleChapter ''a'' ''en'')"
  let ?p2 = "replicate 200 (sampleChapter ''b'' ''en'')"
  obtain r s' where run: "getMangaDexChapters scripted ''m'' noOptions (fresh [okPage ?p1, okPage ?p2]) = (r, s')"
    by (cases "getMangaDexChapters scripted ''m'' noOptions (fresh [okPage ?p1, okPage ?p2])")
  have s': "s' = \<lparr>world = [],
       requests = [(''/api/reader/m/chapters?limit=500&offset=0'', okPage ?p1),
                   (''/api/reader/m/chapters?limit=500&offset=500'', okPage ?p2)],
       console = []\<rparr>"
    using run by (simp add: getMangaDexChapters_def paginate_steps fresh_def scripted_Cons okPage_def
        batchSize_def chaptersUrl_literal)
  have "\<forall>p1 w1 p2 w2.
            scripted [okPage ?p1, okPage ?p2] (chaptersUrl ''m'' 0) = (Inr p1, w1) \<and> ok p1 \<and> length (body p1) = 500 \<and>
            scripted w1 (chaptersUrl ''m'' 500) = (Inr p2, w2) \<and> ok p2 \<and> length (body p2) = 200 \<longrightarrow>
            map fst (requests s') = [chaptersUrl ''m'' 0, chaptersUrl ''m'' 500] \<and>
            r = Inr (clientFilters noOptions (map toSourceChapter (body p1 @ body p2))) \<and>
            length (map toSourceChapter (body p1 @ body p2)) = 700"
    using offsets_advance_by_batch_size[OF run] by blast
  from this[rule_format, of "\<lparr>ok = True, status = 200, body = ?p1\<rparr>" "[okPage ?p2]"
      "\<lparr>ok = True, status = 200, body = ?p2\<rparr>" "[]"]
  have "r = Inr (replicate 500 (toSourceChapter (sampleChapter ''a'' ''en'')) @
           replicate 200 (toSourceChapter (sampleChapter ''b'' ''en'')))"
    by (simp add: scripted_Cons okPage_def clientFilters_noOptions)
  then show ?thesis using run s' by simp
qed

text \<open>
  Claim C3. The loop always stops (\<open>paginate\<close> is a total function, by its termination
  proof): a call returns after at least one and at most 21 requests, none for an offset
  above 10000. It goes on to the next request only after an OK page of at least 500 items:
  every answer but the last one is such a page, so the first rejected fetch, HTTP failure or
  page of fewer than 500 items is the last answer. If the last answer is a full page too, it
  is the answer to the 21st request; then the call resolves and one warning is logged.
\<close>

theorem pagination_stops_within_21_requests:
  "\<exists>r s'. getMangaDexChapters fetch mangaId opts (fresh w) = (r, s') \<and>
     requests s' \<noteq> [] \<and> length (requests s') \<le> 21 \<and>
     (\<forall>i<length (requests s'). fst (requests s' ! i) = chaptersUrl mangaId (i * 500) \<and> i * 500 \<le> 10000) \<and>
     (\<forall>i. Suc i < length (requests s') \<longrightarrow>
        (\<exists>resp. snd (requests s' ! i) = Inr resp \<and> ok resp \<and> 500 \<le> length (body resp))) \<and>
     (case snd (last (requests s')) of
        Inl e \<Rightarrow> r = Inl e \<and> console s' = []
      | Inr resp \<Rightarrow>
          if \<not> ok resp then
            (if length (requests s') = 1 then r = Inl (firstPageError (status resp))
             else r = Inr (clientFilters opts (collected (requests s')))) \<and> console s' = []
          else if length (body resp) < 500 then
            r = Inr (clientFilters opts (collected (requests s'))) \<and> console s' = []
          else
            length (requests s') = 21 \<and> r = Inr (clientFilters opts (collected (requests s'))) \<and>
            console s' = [''[MangaDex] Safety limit reached at offset 10500''])"
proof -
  obtain r s' where run0: "getMangaDexChapters fetch mangaId opts (fresh w) = (r, s')"
    by (cases "getMangaDexChapters fetch mangaId opts (fresh w)")
  let ?es = "requests s'"
  note run = getMangaDexChapters_run[OF run0]
  have ne: "?es \<noteq> []" using run by blast
  have urls: "map fst ?es = map (\<lambda>k. chaptersUrl mangaId (k * 500)) [0..<length ?es]"
    using run by (simp add: batchSize_def)
  have bound: "(length ?es - 1) * 500 \<le> 10000" using run by (simp add: batchSize_def)
  then have len: "length ?es \<le> 21" by arith
  have nth: "fst (?es ! i) = chaptersUrl mangaId (i * 500) \<and> i * 500 \<le> 10000" if "i < length ?es" for i
  proof -
    have "fst (?es ! i) = map fst ?es ! i" using that by simp
    also have "\<dots> = chaptersUrl mangaId (i * 500)" using that by (subst urls) simp
    finally show ?thesis using that bound by auto
  qed
  have full: "\<exists>resp. snd (?es ! i) = Inr resp \<and> ok resp \<and> 500 \<le> length (body resp)"
    if "Suc i < length ?es" for i
  proof -
    have "fullPage (snd (?es ! i))" using run that by blast
    then show ?thesis by (cases "snd (?es ! i)") (simp_all add: fullPage_def batchSize_def)
  qed
  have res: "r = (case snd (last ?es) of
               Inl e \<Rightarrow> Inl e
             | Inr resp \<Rightarrow>
                 if \<not> ok resp \<and> length ?es = 1 then Inl (firstPageError (status resp))
                 else Inr (clientFilters opts (collected ?es)))" using run by blast
  have con: "console s' =
          (if fullPage (snd (last ?es)) then [safetyWarning (length ?es * 500)] else [])"
    using run by (simp add: batchSize_def)
  have ceil: "fullPage (snd (last ?es)) \<Longrightarrow> length ?es = 21"
  proof -
    assume "fullPage (snd (last ?es))"
    then have "10000 < length ?es * 500" using run by (simp add: batchSize_def)
    then show ?thesis using len by arith
  qed
  have last: "case snd (last ?es) of
        Inl e \<Rightarrow> r = Inl e \<and> console s' = []
      | Inr resp \<Rightarrow>
          if \<not> ok resp then
            (if length ?es = 1 then r = Inl (firstPageError (status resp))
             else r = Inr (clientFilters opts (collected ?es))) \<and> console s' = []
          else if length (body resp) < 500 then
            r = Inr (clientFilters opts (collected ?es)) \<and> console s' = []
          else
            length ?es = 21 \<and> r = Inr (clientFilters opts (collected ?es)) \<and>
            console s' = [''[MangaDex] Safety limit reached at offset 10500'']"
  proof (cases "snd (last ?es)")
    case (Inl e)
    then show ?thesis using res con by (simp add: fullPage_def)
  next
    case (Inr resp)
    show ?thesis
    proof (cases "fullPage (snd (last ?es))")
      case True
      then show ?thesis using Inr res con ceil[OF True]
        by (simp add: fullPage_def batchSize_def safetyWarning_10500)
    next
      case False
      then show ?thesis using Inr res con
        by (auto simp: fullPage_def batchSize_def)
    qed
  qed
  show ?thesis
    using run0 ne len nth full last by blast
qed

text \<open>
  Concrete runs for claim C3, one for each way out of the loop: a page of 200 items and an
  HTTP failure end it although the server has another full page to give, and a server that
  only gives full pages is asked 21 times.
\<close>

theorem pagination_stops_within_21_requests_witness:
  "getMangaDexChapters scripted ''m'' noOptions
       (fresh [okPage (replicate 500 (sampleChapter ''a'' ''en'')), okPage (replicate 200 (sampleChapter ''b'' ''en'')),
               okPage (replicate 500 (sampleChapter ''c'' ''en''))]) =
     (Inr (replicate 500 (toSourceChapter (sampleChapter ''a'' ''en'')) @
           replicate 200 (toSourceChapter (sampleChapter ''b'' ''en''))),
      \<lparr>world = [okPage (replicate 500 (sampleChapter ''c'' ''en''))],
       requests = [(''/api/reader/m/chapters?limit=500&offset=0'', okPage (replicate 500 (sampleChapter ''a'' ''en''))),
                   (''/api/reader/m/chapters?limit=500&offset=500'', okPage (replicate 200 (sampleChapter ''b'' ''en'')))],
       console = []\<rparr>) \<and>
   getMangaDexChapters scripted ''m'' noOptions
       (fresh [okPage (replicate 500 (sampleChapter ''a'' ''en'')), httpError 503 [],
               okPage (replicate 500 (sampleChapter ''c'' ''en''))]) =
     (Inr (replicate 500 (toSourceChapter (sampleChapter ''a'' ''en''))),
      \<lparr>world = [okPage (replicate 500 (sampleChapter ''c'' ''en''))],
       requests = [(''/api/reader/m/chapters?limit=500&offset=0'', okPage (replicate 500 (sampleChapter ''a'' ''en''))),
                   (''/api/reader/m/chapters?limit=500&offset=500'', httpError 503 [])],
       console = []\<rparr>) \<and>
   length (requests (snd (getMangaDexChapters (endless (replicate 500 (sampleChapter ''a'' ''en''))) ''m'' noOptions (fresh ())))) = 21 \<and>
   console (snd (getMangaDexChapters (endless (replicate 500 (sampleChapter ''a'' ''en''))) ''m'' noOptions (fresh ()))) =
     [''[MangaDex] Safety limit reached at offset 10500''] \<and>
   fst (getMangaDexChapters (endless (replicate 500 (sampleChapter ''a'' ''en''))) ''m'' noOptions (fresh ())) =
     Inr (replicate 10500 (toSourceChapter (sampleChapter ''a'' ''en'')))"
proof -
  let ?F = "endless (replicate 500 (sampleChapter ''a'' ''en''))"
  have short: "getMangaDexChapters scripted ''m'' noOptions
       (fresh [okPage (replicate 500 (sampleChapter ''a'' ''en'')), okPage (replicate 200 (sampleChapter ''b'' ''en'')),
               okPage (replicate 500 (sampleChapter ''c'' ''en''))]) =
     (Inr (replicate 500 (toSourceChapter (sampleChapter ''a'' ''en'')) @
           replicate 200 (toSourceChapter (sampleChapter ''b'' ''en''))),
      \<lparr>world = [okPage (replicate 500 (sampleChapter ''c'' ''en''))],
       requests = [(''/api/reader/m/chapters?limit=500&offset=0'', okPage (replicate 500 (sampleChapter ''a'' ''en''))),
                   (''/api/reader/m/chapters?limit=500&offset=500'', okPage (replicate 200 (sampleChapter ''b'' ''en'')))],
       console = []\<rparr>)"
    by (simp add: getMangaDexChapters_def paginate_steps fresh_def scripted_Cons okPage_def
        batchSize_def chaptersUrl_literal clientFilters_noOptions)
  have failed: "getMangaDexChapters scripted ''m'' noOptions
       (fresh [okPage (replicate 500 (sampleChapter ''a'' ''en'')), httpError 503 [],
               okPage (replicate 500 (sampleChapter ''c'' ''en''))]) =
     (Inr (replicate 500 (toSourceChapter (sampleChapter ''a'' ''en''))),
      \<lparr>world = [okPage (replicate 500 (sampleChapter ''c'' ''en''))],
       requests = [(''/api/reader/m/chapters?limit=500&offset=0'', okPage (replicate 500 (sampleChapter ''a'' ''en''))),
                   (''/api/reader/m/chapters?limit=500&offset=500'', httpError 503 [])],
       console = []\<rparr>)"
    by (simp add: getMangaDexChapters_def paginate_steps fresh_def scripted_Cons okPage_def httpError_def
        batchSize_def chaptersUrl_literal clientFilters_noOptions)
  have full: "?F w url = (Inr \<lparr>ok = True, status = 200, body = replicate 500 (sampleChapter ''a'' ''en'')\<rparr>, w)" for w url
    by (simp add: endless_def okPage_def)
  have r: "fst (getMangaDexChapters ?F ''m'' noOptions (fresh ())) =
     Inr (replicate 10500 (toSourceChapter (sampleChapter ''a'' ''en'')))"
    by (simp add: getMangaDexChapters_def paginate_steps fresh_def full batchSize_def
        clientFilters_noOptions replicate_add[symmetric])
  have n: "length (requests (snd (getMangaDexChapters ?F ''m'' noOptions (fresh ())))) = 21"
    by (simp add: getMangaDexChapters_def paginate_steps fresh_def full batchSize_def warn_def)
  from pagination_stops_within_21_requests[of ?F "''m''" noOptions "()"] obtain r' s' where
    run: "getMangaDexChapters ?F ''m'' noOptions (fresh ()) = (r', s')" and
    l: "case snd (last (requests s')) of
        Inl e \<Rightarrow> r' = Inl e \<and> console s' = []
      | Inr resp \<Rightarrow>
          if \<not> ok resp then
            (if length (requests s') = 1 then r' = Inl (firstPageError (status resp))
             else r' = Inr (clientFilters noOptions (collected (requests s')))) \<and> console s' = []
          else if length (body resp) < 500 then
            r' = Inr (clientFilters noOptions (collected (requests s'))) \<and> console s' = []
          else
            length (requests s') = 21 \<and> r' = Inr (clientFilters noOptions (collected (requests s'))) \<and>
            console s' = [''[MangaDex] Safety limit reached at offset 10500'']"
    by blast
  have la: "snd (last (requests (snd (getMangaDexChapters ?F ''m'' noOptions (fresh ()))))) =
     Inr \<lparr>ok = True, status = 200, body = replicate 500 (sampleChapter ''a'' ''en'')\<rparr>"
    by (simp add: getMangaDexChapters_def paginate_steps fresh_def full batchSize_def warn_def)
  have "console s' = [''[MangaDex] Safety limit reached at offset 10500'']"
    using l la run by simp
  then show ?thesis using short failed r n run by simp
qed

section \<open>Client-side filters and the composite chapter key\<close>

lemma split_takeWhile:
  "split sep cs = takeWhile (\<lambda>c. c \<noteq> sep) cs #
     (if sep \<in> set cs then split sep (tl (dropWhile (\<lambda>c. c \<noteq> sep) cs)) else [])"
  by (induction cs) (auto split: list.splits)

lemma split_not_Nil: "split sep cs \<noteq> []"
  by (subst split_takeWhile) simp

lemma hd_split: "hd (split sep cs) = takeWhile (\<lambda>c. c \<noteq> sep) cs"
  by (subst split_takeWhile) simp

text \<open>
  Claim C5, as amended. \<open>mangadexSource.getChapterPages\<close> rejects with the format error, and
  leaves the world and the request log untouched, when the key has no colon or nothing before
  its first colon. Otherwise it calls \<open>getMangaDexChapterPages\<close> with the text before the
  first colon as manga id and the text between the first and the second colon as chapter id;
  this is the whole remainder when the key has one colon only.
\<close>

theorem composite_key_split_at_colons:
  "(CHR '':'' \<notin> set chapId \<or> takeWhile (\<lambda>c. c \<noteq> CHR '':'') chapId = [] \<longrightarrow>
      mangadexSource_getChapterPages fetch chapId s = (Inl formatError, s)) \<and>
   (CHR '':'' \<in> set chapId \<and> takeWhile (\<lambda>c. c \<noteq> CHR '':'') chapId \<noteq> [] \<longrightarrow>
      mangadexSource_getChapterPages fetch chapId s =
        getMangaDexChapterPages fetch (takeWhile (\<lambda>c. c \<noteq> CHR '':'') chapId)
          (takeWhile (\<lambda>c. c \<noteq> CHR '':'') (tl (dropWhile (\<lambda>c. c \<noteq> CHR '':'') chapId))) True s \<and>
      (CHR '':'' \<notin> set (tl (dropWhile (\<lambda>c. c \<noteq> CHR '':'') chapId)) \<longrightarrow>
         mangadexSource_getChapterPages fetch chapId s =
           getMangaDexChapterPages fetch (takeWhile (\<lambda>c. c \<noteq> CHR '':'') chapId)
             (tl (dropWhile (\<lambda>c. c \<noteq> CHR '':'') chapId)) True s))"
proof -
  let ?p = "\<lambda>c. c \<noteq> CHR '':''"
  have no: "mangadexSource_getChapterPages fetch chapId s = (Inl formatError, s)"
    if "CHR '':'' \<notin> set chapId"
    using that by (simp add: mangadexSource_getChapterPages_def nthOpt_def)
  have sp: "\<exists>rest. split CHR '':'' chapId = takeWhile ?p chapId #
       takeWhile ?p (tl (dropWhile ?p chapId)) # rest"
    if "CHR '':'' \<in> set chapId"
  proof -
    have "split CHR '':'' chapId = takeWhile ?p chapId # split CHR '':'' (tl (dropWhile ?p chapId))"
      using that split_takeWhile[of "CHR '':''" chapId] by simp
    moreover have "\<exists>rest. split CHR '':'' (tl (dropWhile ?p chapId)) =
        takeWhile ?p (tl (dropWhile ?p chapId)) # rest"
      using split_takeWhile[of "CHR '':''" "tl (dropWhile ?p chapId)"] by blast
    ultimately show ?thesis by auto
  qed
  have empty: "mangadexSource_getChapterPages fetch chapId s = (Inl formatError, s)"
    if "CHR '':'' \<in> set chapId" "takeWhile ?p chapId = []"
    using that sp[OF that(1)] by (auto simp: mangadexSource_getChapterPages_def nthOpt_def)
  have yes: "mangadexSource_getChapterPages fetch chapId s =
        getMangaDexChapterPages fetch (takeWhile ?p chapId)
          (takeWhile ?p (tl (dropWhile ?p chapId))) True s"
    if "CHR '':'' \<in> set chapId" "takeWhile ?p chapId \<noteq> []"
    using that sp[OF that(1)] by (auto simp: mangadexSource_getChapterPages_def nthOpt_def)
  have whole: "takeWhile ?p (tl (dropWhile ?p chapId)) = tl (dropWhile ?p chapId)"
    if "CHR '':'' \<notin> set (tl (dropWhile ?p chapId))"
    using that by (simp add: takeWhile_eq_all_conv) metis
  show ?thesis using no empty yes whole by metis
qed


text \<open>Claim C5 at the keys \<open>abc\<close>, \<open>:b\<close> and \<open>a:b\<close>.\<close>

theorem composite_key_split_at_colons_witness:
  "mangadexSource_getChapterPages scripted ''abc'' (fresh [okPage sampleImages]) =
     (Inl (Error ''MangaDex chapter pages require mangaId:chapterId format''), fresh [okPage sampleImages]) \<and>
   mangadexSource_getChapterPages scripted '':b'' (fresh [okPage sampleImages]) =
     (Inl (Error ''MangaDex chapter pages require mangaId:chapterId format''), fresh [okPage sampleImages]) \<and>
   mangadexSource_getChapterPages scripted ''a:b'' (fresh [okPage sampleImages]) =
     (Inr \<lparr>chapterId = ''b'',
           pages_list = [\<lparr>index = 0, imageUrl = ''https://uploads.mangadex.org/data/h/1.png'', width = None, height = None\<rparr>,
                         \<lparr>index = 1, imageUrl = ''https://uploads.mangadex.org/data/h/2.png'', width = None, height = None\<rparr>],
           referer = None\<rparr>,
      \<lparr>world = [], requests = [(''/api/reader/a/b?dataSaver=true'', okPage sampleImages)], console = []\<rparr>)"
proof -
  let ?s = "fresh [okPage sampleImages] :: ((error + images_response response) list, images_response) io"
  have run: "getMangaDexChapterPages scripted ''a'' ''b'' True ?s =
     (Inr \<lparr>chapterId = ''b'',
           pages_list = [\<lparr>index = 0, imageUrl = ''https://uploads.mangadex.org/data/h/1.png'', width = None, height = None\<rparr>,
                         \<lparr>index = 1, imageUrl = ''https://uploads.mangadex.org/data/h/2.png'', width = None, height = None\<rparr>],
           referer = None\<rparr>,
      \<lparr>world = [], requests = [(''/api/reader/a/b?dataSaver=true'', okPage sampleImages)], console = []\<rparr>)"
    by (simp add: getMangaDexChapterPages_def doFetch_def fresh_def scripted_Cons okPage_def
        sampleImages_def pagesUrl_def showBool_def plainPage_def enumerate_eq_zip)
  show ?thesis
    using composite_key_split_at_colons[of "''abc''" scripted ?s] composite_key_split_at_colons[of "'':b''" scripted ?s] composite_key_split_at_colons[of "''a:b''" scripted ?s] run
    by (simp add: formatError_def)
qed

text \<open>
  Claim C5 as stated fails at the key \<open>a:b:c\<close>: the pages of chapter \<open>b\<close> are requested,
  not those of chapter \<open>b:c\<close>, the remainder after the first colon.
\<close>

theorem second_colon_ends_chapter_id_counterexample:
  "map fst (requests (snd (mangadexSource_getChapterPages scripted ''a:b:c'' (fresh [okPage sampleImages])))) =
     [''/api/reader/a/b?dataSaver=true''] \<and>
   map fst (requests (snd (getMangaDexChapterPages scripted ''a'' ''b:c'' True (fresh [okPage sampleImages])))) =
     [''/api/reader/a/b:c?dataSaver=true''] \<and>
   mangadexSource_getChapterPages scripted ''a:b:c'' (fresh [okPage sampleImages]) \<noteq>
     getMangaDexChapterPages scripted ''a'' ''b:c'' True (fresh [okPage sampleImages])"
  by (simp add: mangadexSource_getChapterPages_def nthOpt_def getMangaDexChapterPages_def doFetch_def
      fresh_def scripted_Cons okPage_def pagesUrl_def showBool_def)

lemma slice_take: "0 \<le> n \<Longrightarrow> slice 0 n xs = take (nat n) xs"
  by (simp add: slice_def relIndex_def Let_def min_def)

text \<open>
  Claim C4, as amended. Relative to the list the call without options returns, a call with a
  non-empty language returns the chapters of this language in their order, and with a positive
  limit in addition the first \<open>limit\<close> of them. A limit of 0 truncates nothing. The requests
  are those of the call without options.
\<close>

theorem language_filter_then_positive_limit:
  assumes "getMangaDexChapters fetch mangaId noOptions s = (Inr allChapters, s')" and "l \<noteq> []"
  shows "getMangaDexChapters fetch mangaId \<lparr>limit = None, language_opt = Some l\<rparr> s =
           (Inr (filter (\<lambda>ch. language ch = l) allChapters), s') \<and>
         (\<forall>n. 0 < n \<longrightarrow>
            getMangaDexChapters fetch mangaId \<lparr>limit = Some n, language_opt = Some l\<rparr> s =
              (Inr (take (nat n) (filter (\<lambda>ch. language ch = l) allChapters)), s')) \<and>
         getMangaDexChapters fetch mangaId \<lparr>limit = Some 0, language_opt = Some l\<rparr> s =
           (Inr (filter (\<lambda>ch. language ch = l) allChapters), s')"
proof -
  have p: "paginate fetch mangaId 0 [] s = (Inr allChapters, s')"
    using assms(1)
    by (auto simp: getMangaDexChapters_def clientFilters_noOptions split: prod.splits sum.splits)
  show ?thesis
    using assms(2) by (simp add: getMangaDexChapters_def p clientFilters_def filterLanguage_def applyLimit_def slice_take)
qed

text \<open>Claim C4 on one page of three chapters in two languages.\<close>

theorem language_filter_then_positive_limit_witness:
  "getMangaDexChapters scripted ''m'' noOptions
      (fresh [okPage [sampleChapter ''a'' ''en'', sampleChapter ''b'' ''ja'', sampleChapter ''c'' ''en'']]) =
     (Inr [toSourceChapter (sampleChapter ''a'' ''en''), toSourceChapter (sampleChapter ''b'' ''ja''),
           toSourceChapter (sampleChapter ''c'' ''en'')],
      \<lparr>world = [],
       requests = [(''/api/reader/m/chapters?limit=500&offset=0'',
                    okPage [sampleChapter ''a'' ''en'', sampleChapter ''b'' ''ja'', sampleChapter ''c'' ''en''])],
       console = []\<rparr>) \<and>
   fst (getMangaDexChapters scripted ''m'' \<lparr>limit = None, language_opt = Some ''en''\<rparr>
      (fresh [okPage [sampleChapter ''a'' ''en'', sampleChapter ''b'' ''ja'', sampleChapter ''c'' ''en'']])) =
     Inr [toSourceChapter (sampleChapter ''a'' ''en''), toSourceChapter (sampleChapter ''c'' ''en'')] \<and>
   fst (getMangaDexChapters scripted ''m'' \<lparr>limit = Some 1, language_opt = Some ''en''\<rparr>
      (fresh [okPage [sampleChapter ''a'' ''en'', sampleChapter ''b'' ''ja'', sampleChapter ''c'' ''en'']])) =
     Inr [toSourceChapter (sampleChapter ''a'' ''en'')]"
proof -
  let ?page = "[sampleChapter ''a'' ''en'', sampleChapter ''b'' ''ja'', sampleChapter ''c'' ''en'']"
  let ?s' = "\<lparr>world = [], requests = [(''/api/reader/m/chapters?limit=500&offset=0'', okPage ?page)],
       console = []\<rparr>"
  have run: "getMangaDexChapters scripted ''m'' noOptions (fresh [okPage ?page]) =
     (Inr (map toSourceChapter ?page), ?s')"
    by (simp add: getMangaDexChapters_def paginate_steps fresh_def scripted_Cons okPage_def
        batchSize_def clientFilters_noOptions chaptersUrl_literal)
  have en: "''en'' \<noteq> []" by simp
  note t = language_filter_then_positive_limit[OF run en]
  have l: "language (toSourceChapter (sampleChapter i x)) = x" for i x
    by (simp add: toSourceChapter_def sampleChapter_def)
  from t have a: "getMangaDexChapters scripted ''m'' \<lparr>limit = None, language_opt = Some ''en''\<rparr> (fresh [okPage ?page]) =
           (Inr (filter (\<lambda>ch. language ch = ''en'') (map toSourceChapter ?page)), ?s')" by blast
  from t have "\<forall>n. 0 < n \<longrightarrow>
            getMangaDexChapters scripted ''m'' \<lparr>limit = Some n, language_opt = Some ''en''\<rparr> (fresh [okPage ?page]) =
              (Inr (take (nat n) (filter (\<lambda>ch. language ch = ''en'') (map toSourceChapter ?page))), ?s')" by blast
  from this[rule_format, of 1]
  have b: "getMangaDexChapters scripted ''m'' \<lparr>limit = Some 1, language_opt = Some ''en''\<rparr> (fresh [okPage ?page]) =
              (Inr (take (nat 1) (filter (\<lambda>ch. language ch = ''en'') (map toSourceChapter ?page))), ?s')" by simp
  show ?thesis using run a b by (simp add: l)
qed

text \<open>
  Claim C4 as stated fails at the limit 0: the call returns the whole filtered list, not its
  first 0 elements.
\<close>

theorem limit_zero_truncates_nothing_counterexample:
  "fst (getMangaDexChapters scripted ''m'' \<lparr>limit = Some 0, language_opt = Some ''en''\<rparr>
      (fresh [okPage [sampleChapter ''a'' ''en'', sampleChapter ''b'' ''ja'']])) =
     Inr [toSourceChapter (sampleChapter ''a'' ''en'')] \<and>
   fst (getMangaDexChapters scripted ''m'' \<lparr>limit = Some 0, language_opt = Some ''en''\<rparr>
      (fresh [okPage [sampleChapter ''a'' ''en'', sampleChapter ''b'' ''ja'']])) \<noteq>
     Inr (take 0 (filter (\<lambda>ch. language ch = ''en'')
            (map toSourceChapter [sampleChapter ''a'' ''en'', sampleChapter ''b'' ''ja''])))"
  by (simp add: getMangaDexChapters_def paginate_steps fresh_def scripted_Cons okPage_def
      batchSize_def chaptersUrl_literal clientFilters_def filterLanguage_def applyLimit_def
      toSourceChapter_def sampleChapter_def)

section \<open>What the patterns capture\<close>

text \<open>
  A matcher never returns more input than it was given, and the group of the chapter number
  patterns starts with a digit, so \<open>parseFloat\<close> reads a number from it.
\<close>

lemma starSplits_shorter: "r \<in> set (starSplits p s) \<Longrightarrow> length r \<le> length s"
  by (induction s) (auto split: if_splits)

lemma rxm_shorter: "(r, g') \<in> set (rxm a (s, g)) \<Longrightarrow> length r \<le> length s"
proof (induction a arbitrary: s g r g')
  case (Seq a b)
  then obtain m gm where "(m, gm) \<in> set (rxm a (s, g))" "(r, g') \<in> set (rxm b (m, gm))"
    by auto
  then show ?case using Seq.IH(1)[of m gm s g] Seq.IH(2)[of r g' m gm] by simp
qed (auto split: list.splits if_splits dest: starSplits_shorter)

lemma numberRx_digit:
  assumes "(r, g') \<in> set (rxm numberRx (s, g))"
  shows "s \<noteq> [] \<and> isDigit (hd s) \<and> length r < length s"
proof -
  from assms obtain m gm where m: "(m, gm) \<in> set (rxm (oneOrMore isDigit) (s, g))"
    and r: "(r, g') \<in> set (rxm (Opt (Seq dot (oneOrMore isDigit))) (m, gm))"
    by (auto simp: numberRx_def)
  from m obtain c cs where s: "s = c # cs" "isDigit c" and "(m, gm) \<in> set (rxm (Star isDigit) (cs, g))"
    by (cases s) (auto simp: oneOrMore_def split: if_splits)
  then have "length m \<le> length cs" using rxm_shorter by blast
  moreover have "length r \<le> length m" using r rxm_shorter by blast
  ultimately show ?thesis using s by simp
qed

lemma group1_number:
  assumes "(r, g') \<in> set (rxm (Grp 1 numberRx) (s, g))"
  shows "\<exists>cap. g' = (1, cap) # tl g' \<and> cap \<noteq> [] \<and> isDigit (hd cap)"
proof -
  from assms obtain g0 where r: "(r, g0) \<in> set (rxm numberRx (s, g))"
    and g': "g' = (1, take (length s - length r) s) # g0"
    by auto
  from numberRx_digit[OF r] show ?thesis using g' by (cases s) auto
qed

lemma chapterWordRx_group:
  assumes "(r, g') \<in> set (rxm chapterWordRx st)"
  shows "\<exists>cap. g' = (1, cap) # tl g' \<and> cap \<noteq> [] \<and> isDigit (hd cap)"
proof -
  from assms obtain s1 g1 s2 g2 where "(r, g') \<in> set (rxm (Grp 1 numberRx) (s2, g2))"
    by (auto simp: chapterWordRx_def)
  then show ?thesis by (rule group1_number)
qed

lemma matchHere_Some:
  "matchHere R s = Some m \<Longrightarrow> \<exists>r. (r, snd m) \<in> set (rxm R (s, []))"
  by (auto simp: matchHere_def split: list.splits)

lemma search_Some: "search R s = Some m \<Longrightarrow> \<exists>s'. matchHere R s' = Some m"
  by (induction s) (auto split: option.splits)

lemma group1_of_capture:
  assumes "snd m = (1, cap) # rest" shows "group 1 m = Some cap"
  using assms by (simp add: group_def)

lemma parseChapterNumber_digit:
  assumes "parseChapterNumber text = Some c"
  shows "c \<noteq> [] \<and> isDigit (hd c)"
proof (cases "search chapterWordRx (trim text)")
  case (Some m)
  then have g: "group 1 m = Some c" using assms by (simp add: parseChapterNumber_def)
  from Some obtain s' where "matchHere chapterWordRx s' = Some m" using search_Some by blast
  then obtain r where "(r, snd m) \<in> set (rxm chapterWordRx (s', []))" using matchHere_Some by blast
  from chapterWordRx_group[OF this] obtain cap where
    cap: "snd m = (1, cap) # tl (snd m)" "cap \<noteq> []" "isDigit (hd cap)" by blast
  from group1_of_capture[OF cap(1)] g have "c = cap" by simp
  then show ?thesis using cap by simp
next
  case None
  then obtain m where m: "matchHere leadingNumberRx (trim text) = Some m" and g: "group 1 m = Some c"
    using assms by (auto simp: parseChapterNumber_def split: option.splits)
  from m obtain r where "(r, snd m) \<in> set (rxm (Grp 1 numberRx) (trim text, []))"
    using matchHere_Some unfolding leadingNumberRx_def by blast
  from group1_number[OF this] obtain cap where
    cap: "snd m = (1, cap) # tl (snd m)" "cap \<noteq> []" "isDigit (hd cap)" by blast
  from group1_of_capture[OF cap(1)] g have "c = cap" by simp
  then show ?thesis using cap by simp
qed

lemma not_space_digit: "isDigit c \<Longrightarrow> \<not> isSpace c"
  by (auto simp: isDigit_def isSpace_def)

lemma parseFloat_digit:
  assumes "c \<noteq> []" "isDigit (hd c)"
  shows "parseFloat rnd c \<noteq> None"
proof -
  obtain x xs where c: "c = x # xs" using assms(1) by (cases c) auto
  have x: "isDigit x" using assms(2) c by simp
  then have "x \<noteq> CHR ''-''" "x \<noteq> CHR ''+''" by (auto simp: isDigit_def)
  then show ?thesis using c x not_space_digit[OF x]
    by (simp add: parseFloat_def trimStart_def Let_def)
qed

section \<open>The chapter list of the Batoto scraper\<close>

text \<open>
  On chapters whose number is \<open>null\<close> or was captured by \<open>parseChapterNumber\<close> the comparator
  never yields \<open>NaN\<close>, and the sort is the stable insertion sort by the parsed number.
\<close>

lemma positive_compareChapters:
  assumes "sortNumber env a \<noteq> None" "sortNumber env b \<noteq> None"
  shows "positive (compareChapters env a b) \<longleftrightarrow> the (sortNumber env b) < the (sortNumber env a)"
  using assms by (auto simp: positive_def compareChapters_def)

lemma insertSorted_insort_key:
  assumes "sortNumber env x \<noteq> None" "\<forall>y\<in>set ys. sortNumber env y \<noteq> None"
  shows "insertSorted (compareChapters env) x ys = insort_key (\<lambda>c. the (sortNumber env c)) x ys"
  using assms by (induction ys) (auto simp: positive_compareChapters)

lemma sortWith_sort_key:
  assumes "\<forall>y\<in>set xs. sortNumber env y \<noteq> None"
  shows "sortWith (compareChapters env) xs = sort_key (\<lambda>c. the (sortNumber env c)) xs"
  using assms
proof (induction xs)
  case Nil
  show ?case by (simp add: sortWith_def)
next
  case (Cons x xs)
  then have "sortWith (compareChapters env) xs = sort_key (\<lambda>c. the (sortNumber env c)) xs" by simp
  moreover have "\<forall>y\<in>set (sort_key (\<lambda>c. the (sortNumber env c)) xs). sortNumber env y \<noteq> None"
    using Cons.prems by simp
  ultimately show ?case using Cons.prems
    by (simp add: sortWith_def insertSorted_insort_key)
qed

lemma chapterOfLink_fields:
  assumes "chapterOfLink env now el = Inr (Some ch)"
  shows "chapter_no ch = parseChapterNumber (orText (Some (numberText el)) (linkText el)) \<and>
         title ch = (if trim (titleText el) = [] \<or> Some (trim (titleText el)) = chapter_no ch then None
                     else Some (trim (titleText el))) \<and>
         extractBatotoChapterId (orText (href el) '''') = Some (id_ch ch) \<and>
         volume ch = None \<and> language ch = ''en'' \<and> pages ch = 0 \<and>
         externalUrl ch = Some (BATOTO_BASE_URL @ ''/chapter/'' @ id_ch ch) \<and>
         parseDate env now (orText (orElse (Some (dateText el)) (datetime el)) '''') = Inr (publishedAt ch)"
  using assms
  by (auto simp: chapterOfLink_def Let_def split: option.splits if_splits sum.splits)

lemma chapterOfLink_sortNumber:
  assumes "chapterOfLink env now el = Inr (Some ch)"
  shows "sortNumber env ch \<noteq> None"
proof (cases "chapter_no ch")
  case None
  then show ?thesis by (simp add: sortNumber_def)
next
  case (Some c)
  then have "parseChapterNumber (orText (Some (numberText el)) (linkText el)) = Some c"
    using chapterOfLink_fields[OF assms] by simp
  from parseChapterNumber_digit[OF this] have "parseFloat (toDouble env) c \<noteq> None" by (simp add: parseFloat_digit)
  then show ?thesis using Some by (simp add: sortNumber_def)
qed

lemma eachLink_built:
  assumes "eachLink env clock i els acc = Inr cs"
  shows "\<exists>new. cs = acc @ new \<and>
           (\<forall>ch\<in>set new. \<exists>el\<in>set els. \<exists>j. chapterOfLink env (clock j) el = Inr (Some ch))"
  using assms
proof (induction els arbitrary: i acc)
  case Nil
  then show ?case by simp
next
  case (Cons el els)
  show ?case
  proof (cases "chapterOfLink env (clock i) el")
    case (Inl e)
    then show ?thesis using Cons.prems by simp
  next
    case (Inr r)
    show ?thesis
    proof (cases r)
      case None
      then have "eachLink env clock (Suc i) els acc = Inr cs" using Cons.prems Inr by simp
      from Cons.IH[OF this] show ?thesis by auto
    next
      case (Some ch)
      then have "eachLink env clock (Suc i) els (acc @ [ch]) = Inr cs" using Cons.prems Inr by simp
      from Cons.IH[OF this] obtain new where new: "cs = (acc @ [ch]) @ new"
        "\<forall>c\<in>set new. \<exists>el\<in>set els. \<exists>j. chapterOfLink env (clock j) el = Inr (Some c)" by blast
      have "\<forall>c\<in>set (ch # new). \<exists>e\<in>set (el # els). \<exists>j. chapterOfLink env (clock j) e = Inr (Some c)"
        using new(2) Inr Some by auto
      then show ?thesis using new(1) by (intro exI[of _ "ch # new"]) simp
    qed
  qed
qed

lemma scrapeBatotoChapters_resolved:
  assumes "fetch (world s) (seriesUrl seriesId) = (Inr resp, w')"
    and "scrapeBatotoChapters env clock fetch seriesId s = (Inr cs, s')"
  shows "ok resp \<and>
         (\<exists>unsorted. eachLink env clock 0 (chapterLinks (body resp)) [] = Inr unsorted \<and>
            cs = sortWith (compareChapters env) unsorted)"
  using assms
  by (auto simp: scrapeBatotoChapters_def doFetch_def sortWith_def split: if_splits sum.splits)

section \<open>Evaluating the runtime model on concrete inputs\<close>

lemmas rx_eval = matchHere_def group_def lit_def lit_ci_def ci_def oneOrMore_def dot_def
  lowerChar_def isSpace_def isDigit_def trim_def trimStart_def toLowerCase_def

lemma replicate_numeral: "replicate (numeral k) x = x # replicate (pred_numeral k) x"
  by (simp add: numeral_eq_Suc)

lemmas date_eval = replicate_numeral isoString_def isoYear_def pad_def YearFromTime_def MonthFromTime_def DateFromTime_def
  HourFromTime_def MinFromTime_def SecFromTime_def msFromTime_def civilFromDay_def Day_def
  TimeWithinDay_def MakeDay_def MakeDate_def MakeTime_def TimeClip_def dayOfMonthStart_def
  msPerDay_def msPerHour_def msPerMinute_def msPerSecond_def showNat_eval Let_def

lemma now_iso: "isoString 1762041600000 = ''2025-11-02T00:00:00.000Z''"
  by (simp add: date_eval cong: let_weak_cong)

lemma parseDate_empty: "parseDate utcHost 1762041600000 '''' = Inr ''2025-11-02T00:00:00.000Z''"
  by (simp add: parseDate_def utcHost_def relativeDateRx_def rx_eval toISOString_def now_iso)

lemma extract_77: "extractBatotoChapterId ''/chapter/77'' = Some ''77''"
  by (simp add: extractBatotoChapterId_def chapterIdRx_def rx_eval)

lemma pcn: "parseChapterNumber ''Chapter 2'' = Some ''2''" "parseChapterNumber ''Extra'' = None"
  "parseChapterNumber ''Chapter 1'' = Some ''1''" "parseChapterNumber ''Chapter 10'' = Some ''10''"
  by (simp_all add: parseChapterNumber_def chapterWordRx_def leadingNumberRx_def numberRx_def rx_eval)

section \<open>Order of the scraped chapter list\<close>

text \<open>
  Claim C7. When \<open>scrapeBatotoChapters\<close> resolves, no chapter of the list has a number that
  parses to \<open>NaN\<close>, a chapter without number counts as 0, and the list is ascending in the
  parsed numbers. It is a stable rearrangement of the records the callbacks built, so no
  record was changed by the sort. Records with the chapter fields \<open>2\<close>, \<open>null\<close>, \<open>1\<close>,
  \<open>10\<close>, whatever their other fields, are sorted to \<open>null\<close>, \<open>1\<close>, \<open>2\<close>, \<open>10\<close> on a
  host whose rounding keeps 0, 1, 2 and 10 in this order.
\<close>

theorem chapters_sorted_by_parsed_number:
  assumes "fetch (world s) (seriesUrl seriesId) = (Inr resp, w')"
    and "scrapeBatotoChapters env clock fetch seriesId s = (Inr cs, s')"
  shows "(\<forall>c\<in>set cs. sortNumber env c \<noteq> None \<and> (chapter_no c = None \<longrightarrow> sortNumber env c = Some 0)) \<and>
         sorted (map (\<lambda>c. the (sortNumber env c)) cs) \<and>
         (\<exists>unsorted. eachLink env clock 0 (chapterLinks (body resp)) [] = Inr unsorted \<and>
            mset cs = mset unsorted \<and>
            (\<forall>k. filter (\<lambda>c. the (sortNumber env c) = k) cs =
                 filter (\<lambda>c. the (sortNumber env c) = k) unsorted)) \<and>
         (0 < toDouble env 1 \<and> toDouble env 1 < toDouble env 2 \<and> toDouble env 2 < toDouble env 10 \<longrightarrow>
            map chapter_no (sortWith (compareChapters env)
              [r1\<lparr>chapter_no := Some ''2''\<rparr>, r2\<lparr>chapter_no := None\<rparr>,
               r3\<lparr>chapter_no := Some ''1''\<rparr>, r4\<lparr>chapter_no := Some ''10''\<rparr>]) =
             [None, Some ''1'', Some ''2'', Some ''10''])"
proof -
  from scrapeBatotoChapters_resolved[OF assms] obtain unsorted where
    u: "eachLink env clock 0 (chapterLinks (body resp)) [] = Inr unsorted"
    and cs: "cs = sortWith (compareChapters env) unsorted" by blast
  from eachLink_built[OF u] have
    "\<forall>ch\<in>set unsorted. \<exists>el\<in>set (chapterLinks (body resp)). \<exists>j. chapterOfLink env (clock j) el = Inr (Some ch)"
    by simp
  then have num: "\<forall>ch\<in>set unsorted. sortNumber env ch \<noteq> None"
    using chapterOfLink_sortNumber by blast
  have eq: "cs = sort_key (\<lambda>c. the (sortNumber env c)) unsorted"
    using cs sortWith_sort_key[OF num] by simp
  have a: "\<forall>c\<in>set cs. sortNumber env c \<noteq> None \<and> (chapter_no c = None \<longrightarrow> sortNumber env c = Some 0)"
    using num eq by (simp add: sortNumber_def)
  have b: "sorted (map (\<lambda>c. the (sortNumber env c)) cs)" unfolding eq by (rule sorted_sort_key)
  have c: "mset cs = mset unsorted" unfolding eq by simp
  have d: "\<forall>k. filter (\<lambda>c. the (sortNumber env c) = k) cs = filter (\<lambda>c. the (sortNumber env c) = k) unsorted"
    unfolding eq by (simp add: sort_key_stable)
  have e: "map chapter_no (sortWith (compareChapters env)
              [r1\<lparr>chapter_no := Some ''2''\<rparr>, r2\<lparr>chapter_no := None\<rparr>,
               r3\<lparr>chapter_no := Some ''1''\<rparr>, r4\<lparr>chapter_no := Some ''10''\<rparr>]) =
             [None, Some ''1'', Some ''2'', Some ''10'']"
    if h: "0 < toDouble env 1 \<and> toDouble env 1 < toDouble env 2 \<and> toDouble env 2 < toDouble env 10"
  proof -
    have n: "sortNumber env (r1\<lparr>chapter_no := Some ''2''\<rparr>) = Some (toDouble env 2)"
      "sortNumber env (r2\<lparr>chapter_no := None\<rparr>) = Some 0"
      "sortNumber env (r3\<lparr>chapter_no := Some ''1''\<rparr>) = Some (toDouble env 1)"
      "sortNumber env (r4\<lparr>chapter_no := Some ''10''\<rparr>) = Some (toDouble env 10)"
      by (simp_all add: sortNumber_def parseFloat_def trimStart_def isSpace_def isDigit_def readNat_def
          digitVal_def Let_def)
    show ?thesis using h
      by (simp add: sortWith_def positive_def compareChapters_def n)
  qed
  show ?thesis using a b c d e u by blast
qed

lemma extract_ids:
  "extractBatotoChapterId ''/chapter/a'' = Some ''a''" "extractBatotoChapterId ''/chapter/b'' = Some ''b''"
  "extractBatotoChapterId ''/chapter/c'' = Some ''c''" "extractBatotoChapterId ''/chapter/d'' = Some ''d''"
  by (simp_all add: extractBatotoChapterId_def chapterIdRx_def rx_eval)

lemma sample_links:
  "chapterOfLink utcHost 1762041600000 (sampleLink ''/chapter/a'' ''Chapter 2'' [] []) = Inr (Some (sampleRecord ''a'' (Some ''2'')))"
  "chapterOfLink utcHost 1762041600000 (sampleLink ''/chapter/b'' ''Extra'' [] []) = Inr (Some (sampleRecord ''b'' None))"
  "chapterOfLink utcHost 1762041600000 (sampleLink ''/chapter/c'' ''Chapter 1'' [] []) = Inr (Some (sampleRecord ''c'' (Some ''1'')))"
  "chapterOfLink utcHost 1762041600000 (sampleLink ''/chapter/d'' ''Chapter 10'' [] []) = Inr (Some (sampleRecord ''d'' (Some ''10'')))"
  by (simp_all add: chapterOfLink_def sampleLink_def sampleRecord_def orText_def orElse_def extract_ids pcn
      parseDate_empty trim_def BATOTO_BASE_URL_def)

text \<open>Claim C7 on a page with the chapter numbers 2, none, 1 and 10.\<close>

theorem chapters_sorted_by_parsed_number_witness:
  "scrapeBatotoChapters utcHost (\<lambda>i. 1762041600000) scripted ''x'' (fresh [okPage samplePage]) =
     (Inr [sampleRecord ''b'' None, sampleRecord ''c'' (Some ''1''), sampleRecord ''a'' (Some ''2''),
           sampleRecord ''d'' (Some ''10'')],
      \<lparr>world = [], requests = [(''https://mto.to/series/x'', okPage samplePage)], console = []\<rparr>) \<and>
   sorted (map (\<lambda>c. the (sortNumber utcHost c))
     [sampleRecord ''b'' None, sampleRecord ''c'' (Some ''1''), sampleRecord ''a'' (Some ''2''),
      sampleRecord ''d'' (Some ''10'')])"
proof -
  let ?s = "fresh [okPage samplePage] :: ((error + series_page response) list, series_page) io"
  let ?s' = "\<lparr>world = [], requests = [(''https://mto.to/series/x'', okPage samplePage)], console = []\<rparr>
     :: ((error + series_page response) list, series_page) io"
  let ?unsorted = "[sampleRecord ''a'' (Some ''2''), sampleRecord ''b'' None, sampleRecord ''c'' (Some ''1''),
           sampleRecord ''d'' (Some ''10'')]"
  have f: "scripted (world ?s) (seriesUrl ''x'') = (Inr \<lparr>ok = True, status = 200, body = samplePage\<rparr>, [])"
    by (simp add: fresh_def scripted_Cons okPage_def)
  have run: "scrapeBatotoChapters utcHost (\<lambda>i. 1762041600000) scripted ''x'' ?s =
     (Inr (sortWith (compareChapters utcHost) ?unsorted), ?s')"
    by (simp add: scrapeBatotoChapters_def doFetch_def fresh_def scripted_Cons okPage_def samplePage_def
        sample_links seriesUrl_def BATOTO_BASE_URL_def)
  have srt: "sortWith (compareChapters utcHost) ?unsorted =
     [sampleRecord ''b'' None, sampleRecord ''c'' (Some ''1''), sampleRecord ''a'' (Some ''2''),
           sampleRecord ''d'' (Some ''10'')]"
    by (simp add: sortWith_def positive_def compareChapters_def sortNumber_def parseFloat_def
        trimStart_def isSpace_def isDigit_def readNat_def digitVal_def sampleRecord_def utcHost_def
        Let_def cong: let_weak_cong)
  from chapters_sorted_by_parsed_number[OF f run]
  have "sorted (map (\<lambda>c. the (sortNumber utcHost c)) (sortWith (compareChapters utcHost) ?unsorted))" by blast
  then show ?thesis using run srt by simp
qed

section \<open>Titles of the scraped chapters and dimensions of the scraped pages\<close>

text \<open>
  When \<open>scrapeBatotoChapters\<close> resolves, the callback returned on every link of the page, and
  the record it built, if any, is in the list.
\<close>

lemma eachLink_mono:
  "eachLink env clock i els acc = Inr out \<Longrightarrow> set acc \<subseteq> set out"
  using eachLink_built[of env clock i els acc out] by auto

lemma eachLink_each:
  assumes "eachLink env clock i els acc = Inr out" and "j < length els"
  shows "\<exists>r. chapterOfLink env (clock (i + j)) (els ! j) = Inr r \<and> (\<forall>ch. r = Some ch \<longrightarrow> ch \<in> set out)"
  using assms
proof (induction els arbitrary: i acc j)
  case Nil
  then show ?case by simp
next
  case (Cons el els)
  show ?case
  proof (cases "chapterOfLink env (clock i) el")
    case (Inl e)
    then show ?thesis using Cons.prems by simp
  next
    case (Inr r)
    define acc' where "acc' = (case r of None \<Rightarrow> acc | Some ch \<Rightarrow> acc @ [ch])"
    have rec: "eachLink env clock (Suc i) els acc' = Inr out"
      using Cons.prems(1) Inr by (cases r) (simp_all add: acc'_def)
    show ?thesis
    proof (cases j)
      case 0
      have "\<forall>ch. r = Some ch \<longrightarrow> ch \<in> set out"
        using eachLink_mono[OF rec] by (auto simp: acc'_def)
      then show ?thesis using 0 Inr by simp
    next
      case (Suc k)
      then have "k < length els" using Cons.prems(2) by simp
      from Cons.IH[OF rec this] show ?thesis using Suc by simp
    qed
  qed
qed

lemma scrapeBatotoChapters_set:
  assumes "fetch (world s) (seriesUrl seriesId) = (Inr resp, w')"
    and "scrapeBatotoChapters env clock fetch seriesId s = (Inr cs, s')"
  shows "\<exists>unsorted. eachLink env clock 0 (chapterLinks (body resp)) [] = Inr unsorted \<and> set cs = set unsorted"
proof -
  from scrapeBatotoChapters_resolved[OF assms] obtain unsorted where
    u: "eachLink env clock 0 (chapterLinks (body resp)) [] = Inr unsorted"
    and cs: "cs = sortWith (compareChapters env) unsorted" by blast
  from eachLink_built[OF u] have
    "\<forall>ch\<in>set unsorted. \<exists>el\<in>set (chapterLinks (body resp)). \<exists>j. chapterOfLink env (clock j) el = Inr (Some ch)"
    by simp
  then have "\<forall>ch\<in>set unsorted. sortNumber env ch \<noteq> None"
    using chapterOfLink_sortNumber by blast
  then have "cs = sort_key (\<lambda>c. the (sortNumber env c)) unsorted"
    using cs sortWith_sort_key by simp
  then have "set cs = set unsorted" by simp
  then show ?thesis using u by blast
qed

lemma chapterOfLink_duplicate:
  assumes "chapterOfLink env now el = Inr r"
    and "extractBatotoChapterId (orText (href el) []) = Some chapId" and "chapId \<noteq> []"
    and "numberText el = t" and "titleText el = t" and "t \<noteq> []" and "trim t = t"
    and "parseChapterNumber t \<noteq> Some t"
  shows "\<exists>ch. r = Some ch \<and> id_ch ch = chapId \<and> chapter_no ch = parseChapterNumber t \<and> title ch = Some t"
  using assms
  by (auto simp: chapterOfLink_def orText_def Let_def split: sum.splits)

lemma pcn5: "parseChapterNumber ''Chapter 5'' = Some ''5''"
  by (simp add: parseChapterNumber_def chapterWordRx_def leadingNumberRx_def numberRx_def rx_eval)

text \<open>
  Claim C9, at a failing input. The callback compares the title text with the parsed chapter
  number, not with the number text. So for every link of the page whose title text is
  identical to its number text \<open>t\<close>, where \<open>t\<close> is not a bare number (\<open>parseChapterNumber\<close>
  does not give \<open>t\<close> back, as for \<open>Chapter 5\<close>), a resolved \<open>scrapeBatotoChapters\<close> has a
  record with the title \<open>t\<close>: the title is kept, not set to \<open>null\<close>.
\<close>

theorem title_identical_to_number_text_is_kept:
  assumes "fetch (world s) (seriesUrl seriesId) = (Inr resp, w')"
    and "scrapeBatotoChapters env clock fetch seriesId s = (Inr cs, s')"
    and "el \<in> set (chapterLinks (body resp))"
    and "extractBatotoChapterId (orText (href el) []) = Some chapId" and "chapId \<noteq> []"
    and "numberText el = t" and "titleText el = t" and "t \<noteq> []" and "trim t = t"
    and "parseChapterNumber t \<noteq> Some t"
  shows "\<exists>ch\<in>set cs. id_ch ch = chapId \<and> chapter_no ch = parseChapterNumber t \<and> title ch = Some t"
proof -
  from scrapeBatotoChapters_set[OF assms(1,2)] obtain unsorted where
    u: "eachLink env clock 0 (chapterLinks (body resp)) [] = Inr unsorted" and s: "set cs = set unsorted"
    by blast
  from assms(3) obtain j where j: "j < length (chapterLinks (body resp))" "chapterLinks (body resp) ! j = el"
    by (auto simp: in_set_conv_nth)
  from eachLink_each[OF u j(1)] obtain r where
    r: "chapterOfLink env (clock (0 + j)) el = Inr r" "\<forall>ch. r = Some ch \<longrightarrow> ch \<in> set unsorted"
    using j(2) by auto
  from chapterOfLink_duplicate[OF r(1) assms(4-10)] obtain ch where
    "r = Some ch" "id_ch ch = chapId" "chapter_no ch = parseChapterNumber t" "title ch = Some t" by blast
  then show ?thesis using r(2) s by blast
qed

lemma extract_b: "extractBatotoChapterId ''/chapter/b'' = Some ''b''"
  by (simp add: extractBatotoChapterId_def chapterIdRx_def rx_eval)

lemma duplicate_record:
  "chapterOfLink utcHost 1762041600000 duplicateLink =
     Inr (Some ((sampleRecord ''b'' (Some ''5''))\<lparr>title := Some ''Chapter 5''\<rparr>))"
  by (simp add: chapterOfLink_def duplicateLink_def sampleRecord_def orText_def orElse_def extract_b pcn5
      parseDate_empty trim_def isSpace_def BATOTO_BASE_URL_def)

text \<open>
  Claim C9 on a page with one link, number text and title text both \<open>Chapter 5\<close>: the record
  has the chapter \<open>5\<close> and the title \<open>Chapter 5\<close>.
\<close>

theorem title_identical_to_number_text_is_kept_witness:
  "scrapeBatotoChapters utcHost (\<lambda>i. 1762041600000) scripted ''x'' (fresh [okPage duplicatePage]) =
     (Inr [\<lparr>id_ch = ''b'', chapter_no = Some ''5'', volume = None, title = Some ''Chapter 5'',
            language = ''en'', pages = 0, publishedAt = ''2025-11-02T00:00:00.000Z'',
            externalUrl = Some ''https://mto.to/chapter/b''\<rparr>],
      \<lparr>world = [], requests = [(''https://mto.to/series/x'', okPage duplicatePage)], console = []\<rparr>) \<and>
   numberText duplicateLink = ''Chapter 5'' \<and> titleText duplicateLink = ''Chapter 5''"
proof -
  let ?s = "fresh [okPage duplicatePage] :: ((error + series_page response) list, series_page) io"
  let ?s' = "\<lparr>world = [], requests = [(''https://mto.to/series/x'', okPage duplicatePage)], console = []\<rparr>
     :: ((error + series_page response) list, series_page) io"
  let ?ch = "(sampleRecord ''b'' (Some ''5''))\<lparr>title := Some ''Chapter 5''\<rparr>"
  have f: "scripted (world ?s) (seriesUrl ''x'') = (Inr \<lparr>ok = True, status = 200, body = duplicatePage\<rparr>, [])"
    by (simp add: fresh_def scripted_Cons okPage_def)
  have run: "scrapeBatotoChapters utcHost (\<lambda>i. 1762041600000) scripted ''x'' ?s = (Inr [?ch], ?s')"
    by (simp add: scrapeBatotoChapters_def doFetch_def fresh_def scripted_Cons okPage_def duplicatePage_def
        duplicate_record seriesUrl_def BATOTO_BASE_URL_def sortWith_def)
  have "\<exists>ch\<in>set [?ch]. id_ch ch = ''b'' \<and> chapter_no ch = parseChapterNumber ''Chapter 5'' \<and>
          title ch = Some ''Chapter 5''"
    by (rule title_identical_to_number_text_is_kept[OF f run, of duplicateLink])
       (simp_all add: duplicatePage_def duplicateLink_def orText_def extract_b trim_def isSpace_def pcn5)
  then have "title ?ch = Some ''Chapter 5'' \<and> chapter_no ?ch = Some ''5''" by (simp add: pcn5)
  then show ?thesis using run by (simp add: sampleRecord_def duplicateLink_def)
qed

text \<open>What \<open>dimension\<close> gives, and that the strategies set the fields as the source does.\<close>

lemma parseInt_0: "parseInt ''0'' = Num 0"
  by (simp add: parseInt_def trimStart_def isSpace_def isDigit_def readNat_def digitVal_def
      numberValue_numeral cong: let_weak_cong)

lemma parseInt_cases: "parseInt t = NaN \<or> (\<exists>i. parseInt t = numberValue (of_int i))"
  unfolding parseInt_def Let_def by (simp only: split: if_split) blast

lemma dimension_cases:
  "dimension a \<noteq> Some (Num 0) \<and> dimension a \<noteq> Some NaN \<and>
   (a = None \<or> a = Some [] \<or> a = Some ''0'' \<or> parseInt (orText a ''0'') = NaN \<longrightarrow> dimension a = None) \<and>
   (\<forall>v. dimension a = Some v \<longrightarrow>
      (\<exists>t i. a = Some t \<and> t \<noteq> [] \<and> parseInt t = v \<and> v = numberValue (of_int i)) \<and>
      ((\<exists>j. j \<noteq> 0 \<and> v = Num (of_int j)) \<or> v = PosInfinity \<or> v = NegInfinity))"
proof (intro conjI allI impI)
  show "dimension a \<noteq> Some (Num 0)" "dimension a \<noteq> Some NaN"
    by (auto simp: dimension_def truthy_def Let_def)
  show "dimension a = None"
    if "a = None \<or> a = Some [] \<or> a = Some ''0'' \<or> parseInt (orText a ''0'') = NaN"
    using that by (auto simp: dimension_def truthy_def orText_def parseInt_0 Let_def)
  fix v assume d: "dimension a = Some v"
  then have v: "v = parseInt (orText a ''0'')" "truthy v"
    by (auto simp: dimension_def Let_def split: if_splits)
  have t: "\<exists>t. a = Some t \<and> t \<noteq> [] \<and> parseInt t = v"
  proof (rule ccontr)
    assume "\<not> (\<exists>t. a = Some t \<and> t \<noteq> [] \<and> parseInt t = v)"
    then have "orText a ''0'' = ''0''" using v(1) by (cases a) (auto simp: orText_def)
    then show False using v by (simp add: parseInt_0 truthy_def)
  qed
  from parseInt_cases[of "orText a ''0''"] v obtain i where i: "v = numberValue (of_int i)"
    by (auto simp: truthy_def)
  show "\<exists>t i. a = Some t \<and> t \<noteq> [] \<and> parseInt t = v \<and> v = numberValue (of_int i)"
    using t i by blast
  from numberValue_of_int_cases[of i] i v(2)
  show "(\<exists>j. j \<noteq> 0 \<and> v = Num (of_int j)) \<or> v = PosInfinity \<or> v = NegInfinity"
    by (auto simp: truthy_def)
qed

lemma foldl_pushImage:
  "\<forall>p\<in>set (foldl pushImage pgs els).
      p \<in> set pgs \<or> (\<exists>el\<in>set els. width p = dimension (width_attr el) \<and> height p = dimension (height_attr el))"
proof (induction els arbitrary: pgs)
  case Nil
  show ?case by simp
next
  case (Cons el els)
  have "\<forall>p\<in>set (pushImage pgs el).
      p \<in> set pgs \<or> (width p = dimension (width_attr el) \<and> height p = dimension (height_attr el))"
    by (auto simp: pushImage_def split: option.splits)
  then show ?case using Cons.IH[of "pushImage pgs el"] by fastforce
qed

lemma foldl_pushData:
  "\<forall>p\<in>set (foldl pushData pgs els). p \<in> set pgs \<or> (width p = None \<and> height p = None)"
proof (induction els arbitrary: pgs)
  case Nil
  show ?case by simp
next
  case (Cons el els)
  have "\<forall>p\<in>set (pushData pgs el). p \<in> set pgs \<or> (width p = None \<and> height p = None)"
    by (auto simp: pushData_def split: option.splits)
  then show ?case using Cons.IH[of "pushData pgs el"] by fastforce
qed

lemma foldl_pushUrl:
  "\<forall>p\<in>set (foldl pushUrl pgs us). p \<in> set pgs \<or> (width p = None \<and> height p = None)"
proof (induction us arbitrary: pgs)
  case Nil
  show ?case by simp
next
  case (Cons u us)
  have "\<forall>p\<in>set (pushUrl pgs u). p \<in> set pgs \<or> (width p = None \<and> height p = None)"
    by (auto simp: pushUrl_def)
  then show ?case using Cons.IH[of "pushUrl pgs u"] by fastforce
qed

text \<open>
  Claim C10, as amended. A page of strategy 1 carries, as width and height, \<open>dimension\<close> of the
  two attributes of its element: never 0 and never \<open>NaN\<close>, absent when the attribute is
  missing, empty, \<open>0\<close> or without a leading integer, and otherwise the Number that \<open>parseInt\<close>
  reads, the Number value for the leading integer of the attribute. This is a non-zero
  integer, negative for an attribute such as \<open>-5\<close>, or an infinity. Pages of strategies 2
  and 3 carry neither field. The pages of \<open>scrapeBatotoChapterPages\<close> are those of the first
  strategy that yields any.
\<close>

theorem page_dimensions_absent_or_nonzero:
  "(\<forall>p\<in>set (strategy1 els). \<exists>el\<in>set els.
       width p = dimension (width_attr el) \<and> height p = dimension (height_attr el)) \<and>
   (\<forall>a. dimension a \<noteq> Some (Num 0) \<and> dimension a \<noteq> Some NaN \<and>
        (a = None \<or> a = Some [] \<or> a = Some ''0'' \<or> parseInt (orText a ''0'') = NaN \<longrightarrow> dimension a = None) \<and>
        (\<forall>v. dimension a = Some v \<longrightarrow>
           (\<exists>t i. a = Some t \<and> t \<noteq> [] \<and> parseInt t = v \<and> v = numberValue (of_int i)) \<and>
           ((\<exists>j. j \<noteq> 0 \<and> v = Num (of_int j)) \<or> v = PosInfinity \<or> v = NegInfinity))) \<and>
   (\<forall>p\<in>set (strategy2 ds). width p = None \<and> height p = None) \<and>
   (\<forall>p\<in>set (strategy3 script). width p = None \<and> height p = None) \<and>
   (\<forall>fetch chapId s r s' resp w'.
       fetch (world s) (chapterUrl chapId) = (Inr resp, w') \<and>
       scrapeBatotoChapterPages fetch chapId s = (Inr r, s') \<longrightarrow>
       pages_list r =
         (if strategy1 (imageElements (body resp)) \<noteq> [] then strategy1 (imageElements (body resp))
          else if strategy2 (dataElements (body resp)) \<noteq> [] then strategy2 (dataElements (body resp))
          else strategy3 (scriptText (body resp))))"
proof (intro conjI)
  show "\<forall>p\<in>set (strategy1 els). \<exists>el\<in>set els.
       width p = dimension (width_attr el) \<and> height p = dimension (height_attr el)"
    using foldl_pushImage[of "[]" els] by (simp add: strategy1_def)
  show "\<forall>a. dimension a \<noteq> Some (Num 0) \<and> dimension a \<noteq> Some NaN \<and>
        (a = None \<or> a = Some [] \<or> a = Some ''0'' \<or> parseInt (orText a ''0'') = NaN \<longrightarrow> dimension a = None) \<and>
        (\<forall>v. dimension a = Some v \<longrightarrow>
           (\<exists>t i. a = Some t \<and> t \<noteq> [] \<and> parseInt t = v \<and> v = numberValue (of_int i)) \<and>
           ((\<exists>j. j \<noteq> 0 \<and> v = Num (of_int j)) \<or> v = PosInfinity \<or> v = NegInfinity))"
    using dimension_cases by blast
  show "\<forall>p\<in>set (strategy2 ds). width p = None \<and> height p = None"
    using foldl_pushData[of "[]" ds] by (simp add: strategy2_def)
  show "\<forall>p\<in>set (strategy3 script). width p = None \<and> height p = None"
    using foldl_pushUrl[of "[]"] by (simp add: strategy3_def)
  show "\<forall>fetch chapId s r s' resp w'.
       fetch (world s) (chapterUrl chapId) = (Inr resp, w') \<and>
       scrapeBatotoChapterPages fetch chapId s = (Inr r, s') \<longrightarrow>
       pages_list r =
         (if strategy1 (imageElements (body resp)) \<noteq> [] then strategy1 (imageElements (body resp))
          else if strategy2 (dataElements (body resp)) \<noteq> [] then strategy2 (dataElements (body resp))
          else strategy3 (scriptText (body resp)))"
    by (auto simp: scrapeBatotoChapterPages_def doFetch_def Let_def split: if_splits)
qed

lemmas int_eval = parseInt_def trimStart_def isSpace_def isDigit_def readNat_def digitVal_def
  numberValue_numeral Let_def

text \<open>A digit string of 400 characters, \<open>"1" + "0".repeat(399)\<close>, is read as \<open>Infinity\<close>.\<close>

lemma foldl_zeros:
  "foldl (\<lambda>a c. 10 * a + digitVal c) a (replicate n CHR ''0'') = a * 10 ^ n"
  by (induction n arbitrary: a) (simp_all add: digitVal_def)

lemma parseInt_400_digits: "parseInt (CHR ''1'' # replicate 399 CHR ''0'') = PosInfinity"
proof -
  have r: "readNat (CHR ''1'' # replicate 399 CHR ''0'') = 10 ^ 399"
    using foldl_zeros[of 1 399] by (simp add: readNat_def digitVal_def)
  have "(2::nat) ^ 1024 \<le> 10 ^ 399" by simp
  from numberValue_overflow[OF this] have "numberValue (of_int (int (10 ^ 399))) = PosInfinity"
    by (simp only: of_int_of_nat_eq)
  then show ?thesis
    by (simp add: parseInt_def trimStart_def isSpace_def isDigit_def r del: of_nat_power of_nat_numeral
        cong: let_weak_cong)
qed

lemma dimension_samples:
  "dimension (Some ''800'') = Some (Num 800)" "dimension (Some ''-5'') = Some (Num (- 5))"
  "parseInt (orText (Some ''abc'') ''0'') = NaN" "parseInt (orText (Some ''12px'') ''0'') = Num 12"
  "dimension (Some ''9007199254740993'') = Some (Num 9007199254740992)"
  "dimension (Some (CHR ''1'' # replicate 399 CHR ''0'')) = Some PosInfinity"
  by (simp_all add: dimension_def truthy_def orText_def parseInt_400_digits)
     (simp_all add: int_eval number_eval cong: let_weak_cong)

lemma strategy1_sample:
  "strategy1 [sampleImg ''/a.png'' (Some ''800'') (Some ''0''), sampleImg ''http://x/b.png'' None (Some ''abc'')] =
     [\<lparr>index = 0, imageUrl = ''https://mto.to/a.png'', width = Some (Num 800), height = None\<rparr>,
      \<lparr>index = 1, imageUrl = ''http://x/b.png'', width = None, height = None\<rparr>]"
  by (simp add: strategy1_def pushImage_def sampleImg_def orElse_def startsWith_def absoluteUrl_def
      BATOTO_BASE_URL_def dimension_def truthy_def orText_def int_eval cong: let_weak_cong)

lemma strategy1_negative:
  "strategy1 [sampleImg ''/a.png'' (Some ''-5'') None] =
     [\<lparr>index = 0, imageUrl = ''https://mto.to/a.png'', width = Some (Num (- 5)), height = None\<rparr>]"
  by (simp add: strategy1_def pushImage_def sampleImg_def orElse_def startsWith_def absoluteUrl_def
      BATOTO_BASE_URL_def dimension_def truthy_def orText_def int_eval cong: let_weak_cong)

lemma strategy1_infinite:
  "strategy1 [sampleImg ''/a.png'' (Some (CHR ''1'' # replicate 399 CHR ''0'')) None] =
     [\<lparr>index = 0, imageUrl = ''https://mto.to/a.png'', width = Some PosInfinity, height = None\<rparr>]"
  using dimension_samples(6)
  by (simp add: strategy1_def pushImage_def sampleImg_def orElse_def startsWith_def absoluteUrl_def
      BATOTO_BASE_URL_def)
     (simp add: dimension_def truthy_def orText_def parseInt_0)

text \<open>
  Claim C10 on sample elements: the attributes \<open>800\<close>, \<open>0\<close>, \<open>abc\<close> and a missing one, an
  integer above \<open>2\<^sup>5\<^sup>3\<close> that is rounded, and the 400 digits that are read as \<open>Infinity\<close>.
\<close>

theorem page_dimensions_absent_or_nonzero_witness:
  "strategy1 [sampleImg ''/a.png'' (Some ''800'') (Some ''0''), sampleImg ''http://x/b.png'' None (Some ''abc'')] =
     [\<lparr>index = 0, imageUrl = ''https://mto.to/a.png'', width = Some (Num 800), height = None\<rparr>,
      \<lparr>index = 1, imageUrl = ''http://x/b.png'', width = None, height = None\<rparr>] \<and>
   dimension None = None \<and> dimension (Some ''0'') = None \<and> dimension (Some ''abc'') = None \<and>
   dimension (Some ''800'') = Some (Num 800) \<and> parseInt ''800'' = Num 800 \<and>
   dimension (Some ''9007199254740993'') = Some (Num 9007199254740992) \<and>
   dimension (Some (CHR ''1'' # replicate 399 CHR ''0'')) = Some PosInfinity \<and>
   strategy2 [\<lparr>el_data_src = Some ''/d.png'', el_data_lazy_src = None\<rparr>] =
     [\<lparr>index = 0, imageUrl = ''https://mto.to/d.png'', width = None, height = None\<rparr>]"
proof -
  note d = page_dimensions_absent_or_nonzero[of "[]" "[]" "[]", THEN conjunct2, THEN conjunct1]
  have "dimension None = None" using d[rule_format, of None] by simp
  moreover have "dimension (Some ''0'') = None" using d[rule_format, of "Some ''0''"] by simp
  moreover have "dimension (Some ''abc'') = None"
    using d[rule_format, of "Some ''abc''"] dimension_samples(3) by simp
  moreover have "parseInt ''800'' = Num 800"
    using d[rule_format, of "Some ''800''"] dimension_samples(1) by simp
  moreover have "strategy2 [\<lparr>el_data_src = Some ''/d.png'', el_data_lazy_src = None\<rparr>] =
     [\<lparr>index = 0, imageUrl = ''https://mto.to/d.png'', width = None, height = None\<rparr>]"
    by (simp add: strategy2_def pushData_def orElse_def startsWith_def absoluteUrl_def BATOTO_BASE_URL_def)
  ultimately show ?thesis using strategy1_sample dimension_samples(1,5,6) by simp
qed

text \<open>
  Claim C10 as stated fails on the attribute \<open>width="-5"\<close>, where the page has the width -5,
  and on a width of 400 digits, where the page has the width \<open>Infinity\<close>.
\<close>

theorem negative_width_is_kept_counterexample:
  "\<not> (\<forall>p\<in>set (strategy1 [sampleImg ''/a.png'' (Some ''-5'') None]).
        (width p = None \<or> (\<exists>n. width p = Some (Num (of_int n)) \<and> 0 < n)) \<and>
        (height p = None \<or> (\<exists>n. height p = Some (Num (of_int n)) \<and> 0 < n))) \<and>
   \<not> (\<forall>p\<in>set (strategy1 [sampleImg ''/a.png'' (Some (CHR ''1'' # replicate 399 CHR ''0'')) None]).
        (width p = None \<or> (\<exists>n. width p = Some (Num (of_int n)) \<and> 0 < n)) \<and>
        (height p = None \<or> (\<exists>n. height p = Some (Num (of_int n)) \<and> 0 < n)))"
proof -
  have "of_int n = (- 5 :: rat) \<Longrightarrow> \<not> 0 < n" for n :: int
  proof -
    assume "of_int n = (- 5 :: rat)"
    then have "(of_int n :: rat) = of_int (- 5)" by simp
    then have "n = - 5" by (simp only: of_int_eq_iff)
    then show ?thesis by simp
  qed
  then show ?thesis by (auto simp: strategy1_negative strategy1_infinite)
qed

section \<open>Where the scraper rejects\<close>

text \<open>
  Bounds on the calendar functions: the first day of the month of a day, as \<open>MakeDay\<close>
  computes it from the year and the month, is less than 800 years ahead of the day. This
  is all that the overflow below needs.
\<close>

lemma civilFromDay_shape:
  "\<exists>era doe yoe doy mp.
      z + 719468 = era * 146097 + doe \<and> 0 \<le> doe \<and> doe \<le> 146096 \<and>
      yoe = (doe - doe div 1460 + doe div 36524 - doe div 146096) div 365 \<and>
      doy = doe - (365 * yoe + yoe div 4 - yoe div 100) \<and>
      mp = (5 * doy + 2) div 153 \<and>
      civilFromDay z =
        (yoe + era * 400 + (if (mp + 2) mod 12 < 2 then 1 else 0), (mp + 2) mod 12,
         doy - (153 * mp + 2) div 5 + 1)"
proof -
  define era where "era = (z + 719468) div 146097"
  define doe where "doe = z + 719468 - era * 146097"
  define yoe where "yoe = (doe - doe div 1460 + doe div 36524 - doe div 146096) div 365"
  define doy where "doy = doe - (365 * yoe + yoe div 4 - yoe div 100)"
  define mp where "mp = (5 * doy + 2) div 153"
  have 1: "z + 719468 = era * 146097 + doe" by (simp add: doe_def)
  have 2: "0 \<le> doe" "doe \<le> 146096" unfolding doe_def era_def by arith+
  have 3: "civilFromDay z =
        (yoe + era * 400 + (if (mp + 2) mod 12 < 2 then 1 else 0), (mp + 2) mod 12,
         doy - (153 * mp + 2) div 5 + 1)"
    unfolding civilFromDay_def Let_def mp_def doy_def yoe_def doe_def era_def by (rule refl)
  show ?thesis using 1 2 3 yoe_def doy_def mp_def by blast
qed

lemma civilFromDay_date_bounds:
  "1 \<le> snd (snd (civilFromDay z)) \<and> snd (snd (civilFromDay z)) \<le> 32"
proof -
  from civilFromDay_shape[of z] obtain doy mp y mn where
    mp: "mp = (5 * doy + 2) div 153" and c: "civilFromDay z = (y, mn, doy - (153 * mp + 2) div 5 + 1)"
    by blast
  have "153 * mp \<le> 5 * doy + 2" "5 * doy + 2 < 153 * mp + 153" unfolding mp by arith+
  then show ?thesis unfolding c by (simp only: snd_conv) arith
qed

lemma civilFromDay_year_upper:
  "fst (civilFromDay z) \<le> ((z + 719468) div 146097) * 400 + 401"
proof -
  from civilFromDay_shape[of z] obtain era doe yoe doy mp where
    z: "z + 719468 = era * 146097 + doe" and doe: "0 \<le> doe" "doe \<le> 146096"
    and yoe: "yoe = (doe - doe div 1460 + doe div 36524 - doe div 146096) div 365"
    and c: "civilFromDay z =
        (yoe + era * 400 + (if (mp + 2) mod 12 < 2 then 1 else 0), (mp + 2) mod 12,
         doy - (153 * mp + 2) div 5 + 1)"
    by blast
  have e: "(z + 719468) div 146097 = era" using z doe by (simp add: div_pos_pos_trivial)
  have "0 \<le> doe div 1460" "0 \<le> doe div 146096" "doe div 36524 \<le> 4" using doe by arith+
  then have "doe - doe div 1460 + doe div 36524 - doe div 146096 \<le> 146100" using doe by arith
  then have "yoe \<le> 146100 div 365" unfolding yoe by (rule zdiv_mono1) simp
  then have "yoe \<le> 400" by simp
  then show ?thesis unfolding c e by (simp only: fst_conv) arith
qed

lemma civilFromDay_month_bounds:
  "0 \<le> fst (snd (civilFromDay z)) \<and> fst (snd (civilFromDay z)) \<le> 11"
proof -
  from civilFromDay_shape[of z] obtain y mp d where c: "civilFromDay z = (y, (mp + 2) mod 12, d)"
    by blast
  show ?thesis unfolding c by (simp only: fst_conv snd_conv) arith
qed

lemma dayOfMonthStart_upper:
  assumes "0 \<le> mn" "mn \<le> 11"
  shows "dayOfMonthStart y mn \<le> (y div 400) * 146097 + 146071 - 719468"
proof -
  have m: "mn div 12 = 0" "mn mod 12 = mn" using assms by auto
  define y' where "y' = (if mn < 2 then y - 1 else y)"
  define era where "era = y' div 400"
  define yoe where "yoe = y' - era * 400"
  define mp where "mp = (mn + 10) mod 12"
  have yoe: "0 \<le> yoe" "yoe \<le> 399" unfolding yoe_def era_def by arith+
  have mp: "0 \<le> mp" "mp \<le> 11" unfolding mp_def by arith+
  have e: "dayOfMonthStart y mn = era * 146097 + (yoe * 365 + yoe div 4 - yoe div 100 + (153 * mp + 2) div 5) - 719468"
    unfolding dayOfMonthStart_def Let_def m mp_def yoe_def era_def y'_def
    by (simp only: add_0_right)
  have "era \<le> y div 400" unfolding era_def y'_def by (auto intro: zdiv_mono1)
  moreover have "yoe * 365 + yoe div 4 - yoe div 100 + (153 * mp + 2) div 5 \<le> 146071"
    using yoe mp by arith
  ultimately show ?thesis unfolding e by arith
qed

lemma month_start_not_far_ahead:
  "dayOfMonthStart (fst (civilFromDay z)) (fst (snd (civilFromDay z))) + snd (snd (civilFromDay z)) - 1
     \<le> z + 292200"
proof -
  define era where "era = (z + 719468) div 146097"
  define y where "y = fst (civilFromDay z)"
  define mn where "mn = fst (snd (civilFromDay z))"
  define d where "d = snd (snd (civilFromDay z))"
  have "y \<le> era * 400 + 401"
    using civilFromDay_year_upper[of z] by (simp add: era_def y_def)
  then have "y div 400 \<le> (401 + era * 400) div 400" by (intro zdiv_mono1) simp_all
  then have yd: "y div 400 \<le> era + 1" by simp
  have mn: "0 \<le> mn" "mn \<le> 11" using civilFromDay_month_bounds[of z] by (simp_all add: mn_def)
  have "dayOfMonthStart y mn \<le> (y div 400) * 146097 + 146071 - 719468"
    using mn by (rule dayOfMonthStart_upper)
  moreover have "(y div 400) * 146097 \<le> (era + 1) * 146097" using yd by simp
  ultimately have s: "dayOfMonthStart y mn \<le> (era + 1) * 146097 + 146071 - 719468" by linarith
  have e: "era * 146097 \<le> z + 719468" unfolding era_def by arith
  have "d \<le> 32" using civilFromDay_date_bounds[of z] by (simp add: d_def)
  then have "dayOfMonthStart y mn + d - 1 \<le> z + 292200" using s e by (simp add: algebra_simps)
  then show ?thesis by (simp add: y_def mn_def d_def)
qed

lemma setDate_far_past:
  assumes now: "\<bar>now\<bar> \<le> 8640000000000000"
    and zone: "\<And>t u. \<bar>localTZA env t u\<bar> \<le> msPerDay"
  shows "setDate env now (getDate env now - 999999999) = None"
proof -
  define t where "t = LocalTime env now"
  define dayNo where "dayNo = MakeDay (YearFromTime t) (MonthFromTime t) (DateFromTime t - 999999999)"
  define newDate where "newDate = MakeDate dayNo (TimeWithinDay t)"
  have t: "t \<le> 8640000000000000 + 86400000"
    using now zone[of now True] by (simp add: t_def LocalTime_def msPerDay_def)
  then have "Day t \<le> 100000001" unfolding Day_def msPerDay_def by arith
  moreover have "dayNo \<le> Day t + 292200 - 999999999"
    using month_start_not_far_ahead[of "Day t"]
    by (simp add: dayNo_def MakeDay_def YearFromTime_def MonthFromTime_def DateFromTime_def)
  ultimately have "dayNo \<le> - 899707798" by arith
  moreover have "TimeWithinDay t < 86400000" by (simp add: TimeWithinDay_def msPerDay_def)
  ultimately have "newDate < - 77734753660800000"
    unfolding newDate_def MakeDate_def msPerDay_def by arith
  then have "UTC env newDate < - 8640000000000000"
    using zone[of newDate False] by (simp add: UTC_def msPerDay_def)
  then have "TimeClip (UTC env newDate) = None" by (simp add: TimeClip_def)
  then show ?thesis
    by (simp add: setDate_def getDate_def Let_def t_def[symmetric] dayNo_def[symmetric] newDate_def[symmetric])
qed

text \<open>
  \<open>999999999 days ago\<close> on any host whose native parser does not read this text and whose
  local time is within a day of UTC, at any instant: the date computed by \<open>setDate\<close> is out
  of range, so the date object is invalid and \<open>toISOString\<close> throws.
\<close>

lemma relative_far_past:
  "search relativeDateRx (trim ''999999999 days ago'') = Some (''999999999 days ago'', [(2, ''day''), (1, ''999999999'')])"
  by (simp add: relativeDateRx_def rx_eval)

lemma parseInt_far_past: "parseInt ''999999999'' = Num 999999999"
  by (simp add: int_eval cong: let_weak_cong)

lemma relativeDate_day:
  assumes "0 \<le> a" and "a < 2 ^ 52"
  shows "relativeDate env now (Num (of_int a)) ''day'' = setDate env now (getDate env now - a)"
proof -
  define g where "g = getDate env now"
  have "1 \<le> g \<and> g \<le> 32"
    using civilFromDay_date_bounds[of "Day (LocalTime env now)"]
    by (simp add: g_def getDate_def DateFromTime_def)
  moreover have "a < 4503599627370496" using assms(2) by simp
  ultimately have "\<bar>g - a\<bar> < 9007199254740992" using assms(1) by linarith
  then have "\<bar>g - a\<bar> < 2 ^ 53" by simp
  from numberValue_of_int_exact[OF this]
  have "minusNumber (Num (of_int g)) (Num (of_int a)) = Num (of_int (g - a))"
    by (simp add: minusNumber_def)
  moreover have "callSetter (setDate env now) (Num (of_int (g - a))) = setDate env now (g - a)"
    by (simp add: callSetter_def del: of_int_diff)
  ultimately show ?thesis by (simp add: relativeDate_def g_def)
qed

lemma parseDate_far_past:
  assumes "dateParse env ''999999999 days ago'' = None"
    and "\<bar>now\<bar> \<le> 8640000000000000"
    and "\<And>t u. \<bar>localTZA env t u\<bar> \<le> msPerDay"
  shows "parseDate env now ''999999999 days ago'' = Inl (RangeError ''Invalid time value'')"
proof -
  have tr: "trim ''999999999 days ago'' = ''999999999 days ago''"
    by (simp add: trim_def isSpace_def)
  have "parseDate env now ''999999999 days ago'' =
      toISOString (relativeDate env now (Num 999999999) ''day'')"
    using assms(1) relative_far_past
    by (simp add: parseDate_def tr group_def parseInt_far_past toLowerCase_def lowerChar_def)
  also have "\<dots> = toISOString (setDate env now (getDate env now - 999999999))"
    using relativeDate_day[of 999999999 env now] by simp
  also have "\<dots> = Inl (RangeError ''Invalid time value'')"
    using setDate_far_past[OF assms(2,3)] by (simp add: toISOString_def)
  finally show ?thesis .
qed

lemma farPast_link:
  assumes "dateParse env ''999999999 days ago'' = None"
    and "\<bar>now\<bar> \<le> 8640000000000000"
    and "\<And>t u. \<bar>localTZA env t u\<bar> \<le> msPerDay"
  shows "chapterOfLink env now farPastLink = Inl (RangeError ''Invalid time value'')"
  using parseDate_far_past[OF assms]
  by (simp add: chapterOfLink_def farPastLink_def sampleLink_def orText_def orElse_def extract_ids pcn5)

lemma scrape_far_past:
  assumes "fetch (world s) (seriesUrl seriesId) = (Inr resp, w')" and "ok resp"
    and "chapterLinks (body resp) = farPastLink # others"
    and "dateParse env ''999999999 days ago'' = None"
    and "\<bar>clock 0\<bar> \<le> 8640000000000000"
    and "\<And>t u. \<bar>localTZA env t u\<bar> \<le> msPerDay"
  shows "scrapeBatotoChapters env clock fetch seriesId s =
     (Inl (RangeError ''Invalid time value''),
      s\<lparr>world := w', requests := requests s @ [(seriesUrl seriesId, Inr resp)]\<rparr>)"
  using assms(1-3) farPast_link[OF assms(4-6)]
  by (simp add: scrapeBatotoChapters_def doFetch_def)

lemmas zone_eval = setMinutes_def setHours_def setDate_def setMonth_def
  getMinutes_def getHours_def getDate_def getMonth_def LocalTime_def UTC_def utcHost_def

text \<open>
  Where \<open>parseDate\<close> does return: three days back from 2025-11-02 on a UTC host, the current
  instant for a text that neither parser reads, the native reading when there is one.
\<close>

lemma relative_three_days:
  "search relativeDateRx (trim ''3 days ago'') = Some (''3 days ago'', [(2, ''day''), (1, ''3'')])"
  by (simp add: relativeDateRx_def rx_eval)

lemma parseDate_three_days_ago:
  "parseDate utcHost 1762041600000 ''3 days ago'' = Inr ''2025-10-30T00:00:00.000Z''"
proof -
  have n: "dateParse utcHost s = None" for s by (simp add: utcHost_def)
  have p: "parseInt ''3'' = Num 3" by (simp add: int_eval cong: let_weak_cong)
  have "parseDate utcHost 1762041600000 ''3 days ago'' =
      toISOString (relativeDate utcHost 1762041600000 (Num 3) ''day'')"
    using relative_three_days
    by (simp add: parseDate_def n group_def p toLowerCase_def lowerChar_def)
  also have "\<dots> = toISOString (setDate utcHost 1762041600000 (getDate utcHost 1762041600000 - 3))"
    using relativeDate_day[of 3 utcHost 1762041600000] by simp
  also have "\<dots> = Inr ''2025-10-30T00:00:00.000Z''"
    by (simp add: zone_eval date_eval toISOString_def cong: let_weak_cong)
  finally show ?thesis .
qed

lemma parseDate_not_a_date:
  "parseDate utcHost 1762041600000 ''not a date'' = Inr ''2025-11-02T00:00:00.000Z''"
  by (simp add: parseDate_def relativeDateRx_def rx_eval utcHost_def toISOString_def now_iso)

lemma parseDate_native:
  "dateParse env (trim text) = Some t \<Longrightarrow> \<bar>t\<bar> \<le> 8640000000000000 \<Longrightarrow>
   parseDate env now text = Inr (isoString t)"
  by (simp add: parseDate_def TimeClip_def toISOString_def)

lemma parseDate_fallback:
  "Option.bind (dateParse env (trim text)) TimeClip = None \<Longrightarrow>
   search relativeDateRx (trim text) = None \<Longrightarrow>
   parseDate env now text = Inr (isoString now)"
  by (simp add: parseDate_def toISOString_def)

text \<open>
  Where the scrapers resolve: a page without chapter links gives the empty list and a
  warning, and \<open>scrapeBatotoChapterPages\<close> rejects exactly when the request does or the
  response is not OK.
\<close>

lemma scrapeBatotoChapters_no_links:
  assumes "fetch (world s) (seriesUrl seriesId) = (Inr resp, w')" "ok resp" "chapterLinks (body resp) = []"
  shows "scrapeBatotoChapters env clock fetch seriesId s =
     (Inr [], warn (noChaptersWarning seriesId)
                (s\<lparr>world := w', requests := requests s @ [(seriesUrl seriesId, Inr resp)]\<rparr>))"
  using assms by (simp add: scrapeBatotoChapters_def doFetch_def)

lemma scrapeBatotoChapterPages_outcome:
  assumes "fetch (world s) (chapterUrl chapId) = (out, w')"
  shows "fst (scrapeBatotoChapterPages fetch chapId s) =
     (case out of
        Inl e \<Rightarrow> Inl e
      | Inr resp \<Rightarrow>
          if ok resp then
            Inr \<lparr>chapterId = chapId,
                 pages_list =
                   (if strategy1 (imageElements (body resp)) \<noteq> [] then strategy1 (imageElements (body resp))
                    else if strategy2 (dataElements (body resp)) \<noteq> [] then strategy2 (dataElements (body resp))
                    else strategy3 (scriptText (body resp))),
                 referer = Some BATOTO_BASE_URL\<rparr>
          else Inl (chapterError (status resp) chapId))"
  using assms by (auto simp: scrapeBatotoChapterPages_def doFetch_def Let_def split: sum.splits)

text \<open>
  Claim C8, at a failing input. On every host whose native parser does not read the text
  \<open>999999999 days ago\<close> and whose local time is within a day of UTC, and at every instant,
  \<open>parseDate\<close> of this text throws a \<open>RangeError\<close>: it does not return a timestamp.
\<close>

theorem parseDate_throws_on_far_past:
  assumes "dateParse env ''999999999 days ago'' = None"
    and "\<bar>now\<bar> \<le> 8640000000000000"
    and "\<And>t u. \<bar>localTZA env t u\<bar> \<le> msPerDay"
  shows "parseDate env now ''999999999 days ago'' = Inl (RangeError ''Invalid time value'')"
  using assms by (rule parseDate_far_past)

text \<open>Claim C8 on a UTC host on 2025-11-02.\<close>

theorem parseDate_throws_on_far_past_witness:
  "parseDate utcHost 1762041600000 ''999999999 days ago'' = Inl (RangeError ''Invalid time value'')"
  using parseDate_throws_on_far_past[of utcHost 1762041600000]
  by (simp add: utcHost_def msPerDay_def)

text \<open>
  Claim C6, at a failing input. The series page arrives with an OK response and its first
  chapter link has the date text \<open>999999999 days ago\<close>; the exception of \<open>parseDate\<close> leaves
  the callback and \<open>scrapeBatotoChapters\<close> rejects, after one request that was answered.
\<close>

theorem scrapeBatotoChapters_rejects_on_ok_response:
  assumes "fetch (world s) (seriesUrl seriesId) = (Inr resp, w')" and "ok resp"
    and "chapterLinks (body resp) = farPastLink # others"
    and "dateParse env ''999999999 days ago'' = None"
    and "\<bar>clock 0\<bar> \<le> 8640000000000000"
    and "\<And>t u. \<bar>localTZA env t u\<bar> \<le> msPerDay"
  shows "scrapeBatotoChapters env clock fetch seriesId s =
     (Inl (RangeError ''Invalid time value''),
      s\<lparr>world := w', requests := requests s @ [(seriesUrl seriesId, Inr resp)]\<rparr>)"
  using assms by (rule scrape_far_past)

text \<open>Claim C6 on a page with this one link, on a UTC host on 2025-11-02.\<close>

theorem scrapeBatotoChapters_rejects_on_ok_response_witness:
  "scrapeBatotoChapters utcHost (\<lambda>i. 1762041600000) scripted ''x'' (fresh [okPage farPastPage]) =
     (Inl (RangeError ''Invalid time value''),
      \<lparr>world = [], requests = [(''https://mto.to/series/x'', okPage farPastPage)], console = []\<rparr>)"
proof -
  let ?s = "fresh [okPage farPastPage] :: ((error + series_page response) list, series_page) io"
  have f: "scripted (world ?s) (seriesUrl ''x'') =
      (Inr \<lparr>ok = True, status = 200, body = farPastPage\<rparr>, [])"
    by (simp add: fresh_def scripted_Cons okPage_def)
  have "scrapeBatotoChapters utcHost (\<lambda>i. 1762041600000) scripted ''x'' ?s =
     (Inl (RangeError ''Invalid time value''),
      ?s\<lparr>world := [], requests := requests ?s @ [(seriesUrl ''x'', Inr \<lparr>ok = True, status = 200, body = farPastPage\<rparr>)]\<rparr>)"
    using f
    by (rule scrapeBatotoChapters_rejects_on_ok_response[where fetch = scripted and s = "?s"
          and others = "[]" and env = utcHost and clock = "\<lambda>i. 1762041600000"])
       (simp_all add: farPastPage_def utcHost_def msPerDay_def)
  then show ?thesis
    by (simp add: fresh_def okPage_def seriesUrl_def BATOTO_BASE_URL_def)
qed

end
